theory Spec2Isabelle
  imports Complex_Main
begin

section \<open>Python floats\<close>

text \<open>
  Every number the two estimators touch is a Python \<open>float\<close>, an IEEE 754 binary64 value:
  the arguments go through \<open>float(...)\<close>, the catalogue columns are float columns of a
  DataFrame in which a missing cell is NaN, and \<open>+\<close>, \<open>-\<close> and \<open>/\<close> round their exact result
  to the nearest float, ties to even. The rounding is modelled bit for bit: 53 significant
  bits, gradual underflow below \<open>2^-1022\<close> (spacing \<open>2^-1074\<close>), overflow to an infinity from
  \<open>2^1024\<close> on. The sign of zero, which no comparison of the source can see, is not
  modelled.
\<close>

subsection \<open>Rounding a real to the nearest double\<close>

text \<open>\<open>ilog2 n\<close> is the position of the highest set bit of \<open>n\<close>.\<close>

fun ilog2 :: "nat \<Rightarrow> nat" where
  "ilog2 n = (if n < 2 then 0 else Suc (ilog2 (n div 2)))"

declare ilog2.simps [simp del]

text \<open>The binary exponent of a positive real: \<open>2^e <= x < 2^(e+1)\<close>.\<close>

definition exponent :: "real \<Rightarrow> int" where
  "exponent x =
     (if 1 \<le> x then int (ilog2 (nat \<lfloor>x\<rfloor>)) else - int (ilog2 (nat \<lceil>1 / x\<rceil> - 1)) - 1)"

text \<open>Rounding to the nearest integer, a tie to the even one.\<close>

definition round_half_even :: "real \<Rightarrow> int" where
  "round_half_even x =
     (let f = \<lfloor>x\<rfloor>; d = x - of_int f
      in if d < 1 / 2 then f else if 1 / 2 < d then f + 1 else if even f then f else f + 1)"

text \<open>
  A positive real is rounded to a multiple of the spacing of the doubles around it:
  \<open>2^(e-52)\<close> for the exponent \<open>e\<close>, and \<open>2^-1074\<close> for every exponent below \<open>-1022\<close>.
\<close>

definition quantum :: "real \<Rightarrow> real" where
  "quantum x = 2 powi (max (exponent x) (- 1022) - 52)"

definition round_pos :: "real \<Rightarrow> real" where
  "round_pos x =
     (let q = 2 powi (max (exponent x) (- 1022) - 52)
      in of_int (round_half_even (x / q)) * q)"

definition nearest_double :: "real \<Rightarrow> real" where
  "nearest_double x =
     (if x = 0 then 0 else if 0 < x then round_pos x else - round_pos (- x))"

subsection \<open>Float values and their operations\<close>

text \<open>
  \<open>Fin x\<close> is the finite float written \<open>x\<close>: the float that \<open>float\<close> returns for \<open>x\<close> and
  that the literal \<open>x\<close> denotes, which is \<open>x\<close> rounded (so \<open>Fin 0.1\<close> is the Python float
  \<open>0.1\<close>, and \<open>Fin\<close> of a real from \<open>2^1024\<close> on is \<open>inf\<close>). \<open>py_float\<close> is that conversion and
  \<open>the_float\<close> reads a value through it; every operation reads its operands so.
\<close>

datatype pyfloat = NaN | NegInf | Fin real | PosInf

definition py_float :: "real \<Rightarrow> pyfloat" where
  "py_float x =
     (let y = nearest_double x
      in if 2 ^ 1024 \<le> y then PosInf else if y \<le> - (2 ^ 1024) then NegInf else Fin y)"

fun the_float :: "pyfloat \<Rightarrow> pyfloat" where
  "the_float NaN = NaN"
| "the_float NegInf = NegInf"
| "the_float (Fin x) = py_float x"
| "the_float PosInf = PosInf"

fun fl_neg :: "pyfloat \<Rightarrow> pyfloat" where
  "fl_neg NaN = NaN"
| "fl_neg NegInf = PosInf"
| "fl_neg (Fin x) = Fin (- x)"
| "fl_neg PosInf = NegInf"

text \<open>The sum of two floats: the exact sum of two finite floats, rounded.\<close>

fun add_floats :: "pyfloat \<Rightarrow> pyfloat \<Rightarrow> pyfloat" where
  "add_floats NaN b = NaN"
| "add_floats NegInf NaN = NaN"
| "add_floats NegInf NegInf = NegInf"
| "add_floats NegInf (Fin y) = NegInf"
| "add_floats NegInf PosInf = NaN"
| "add_floats (Fin x) NaN = NaN"
| "add_floats (Fin x) NegInf = NegInf"
| "add_floats (Fin x) (Fin y) = py_float (x + y)"
| "add_floats (Fin x) PosInf = PosInf"
| "add_floats PosInf NaN = NaN"
| "add_floats PosInf NegInf = NaN"
| "add_floats PosInf (Fin y) = PosInf"
| "add_floats PosInf PosInf = PosInf"

text \<open>Python's \<open>a + b\<close> and \<open>a - b\<close> on floats.\<close>

definition fl_add :: "pyfloat \<Rightarrow> pyfloat \<Rightarrow> pyfloat" where
  "fl_add a b = add_floats (the_float a) (the_float b)"

definition fl_sub :: "pyfloat \<Rightarrow> pyfloat \<Rightarrow> pyfloat" where
  "fl_sub a b = fl_add a (fl_neg b)"

text \<open>Python's \<open>a < b\<close> on floats: false as soon as one side is NaN.\<close>

fun lt_floats :: "pyfloat \<Rightarrow> pyfloat \<Rightarrow> bool" where
  "lt_floats NaN b = False"
| "lt_floats NegInf NaN = False"
| "lt_floats NegInf NegInf = False"
| "lt_floats NegInf (Fin y) = True"
| "lt_floats NegInf PosInf = True"
| "lt_floats (Fin x) NaN = False"
| "lt_floats (Fin x) NegInf = False"
| "lt_floats (Fin x) (Fin y) = (x < y)"
| "lt_floats (Fin x) PosInf = True"
| "lt_floats PosInf b = False"

definition fl_lt :: "pyfloat \<Rightarrow> pyfloat \<Rightarrow> bool" where
  "fl_lt a b = lt_floats (the_float a) (the_float b)"

definition fl_gt :: "pyfloat \<Rightarrow> pyfloat \<Rightarrow> bool" where
  "fl_gt a b = fl_lt b a"

text \<open>Python's \<open>a <= b\<close> on floats.\<close>

definition fl_le :: "pyfloat \<Rightarrow> pyfloat \<Rightarrow> bool" where
  "fl_le a b =
     (fl_lt a b \<or> (the_float a \<noteq> NaN \<and> the_float a = the_float b))"

text \<open>The order of two floats neither of which is NaN.\<close>

definition le_floats :: "pyfloat \<Rightarrow> pyfloat \<Rightarrow> bool" where
  "le_floats a b = (a \<noteq> NaN \<and> b \<noteq> NaN \<and> \<not> lt_floats b a)"

section \<open>The catalogue and the arguments\<close>

text \<open>
  One row of the reference DataFrame \<open>df\<close>, with the columns the estimators read:
  \<open>df.prot_rh20\<close>, \<open>df.power\<close>, \<open>df.Tmag\<close>, \<open>df.snr\<close> and \<open>df.status\<close>.
  The DataFrame is the list of its rows, in order.
\<close>

record row =
  col_prot_rh20 :: pyfloat
  col_power :: pyfloat
  col_Tmag :: pyfloat
  col_snr :: pyfloat
  col_status :: string

type_synonym dataframe = "row list"

text \<open>
  The keyword arguments shared by \<open>calculate_reliability\<close> and \<open>calculate_completeness\<close>,
  after the \<open>float(...)\<close> conversions (an argument that \<open>float\<close> rejects is outside the
  model). \<open>None\<close> for \<open>ls\<close>, \<open>t\<close> or \<open>snr\<close> is Python's \<open>None\<close>: the axis is not
  supplied.
\<close>

record args =
  input_period :: pyfloat
  period_lower_limit :: pyfloat
  period_upper_limit :: pyfloat
  ls :: "pyfloat option"
  ls_lower_limit :: pyfloat
  ls_upper_limit :: pyfloat
  t :: "pyfloat option"
  t_lower_limit :: pyfloat
  t_upper_limit :: pyfloat
  snr :: "pyfloat option"
  snr_lower_limit :: pyfloat
  snr_upper_limit :: pyfloat
  mode :: string

text \<open>The signature's defaults: windows of 1 day, 0.05, 0.5 mag and 2.5, mode \<open>'match'\<close>.\<close>

definition default_args :: "pyfloat \<Rightarrow> args" where
  "default_args p =
     \<lparr>input_period = p, period_lower_limit = Fin 1, period_upper_limit = Fin 1,
      ls = None, ls_lower_limit = Fin 0.05, ls_upper_limit = Fin 0.05,
      t = None, t_lower_limit = Fin 0.5, t_upper_limit = Fin 0.5,
      snr = None, snr_lower_limit = Fin 2.5, snr_upper_limit = Fin 2.5,
      mode = ''match''\<rparr>"

section \<open>Exceptions and the order of effects\<close>

text \<open>
  A failed \<open>assert\<close> raises AssertionError with the message of the source (assertions
  are enabled, as they are by default); \<open>/\<close> on two ints raises ZeroDivisionError when
  the divisor is 0.
\<close>

datatype exn = AssertionError string | ZeroDivisionError

text \<open>
  The estimators read the catalogue through \<open>.loc\<close> selections, one per axis. A run
  records which selections were executed, in order, next to its outcome, so that the
  position of each \<open>assert\<close> relative to the selections is part of the model.
\<close>

datatype axis = Period | Power | Magnitude | Snr

type_synonym 'a run = "axis list \<times> (exn + 'a)"

definition then_run :: "'a run \<Rightarrow> (axis list \<Rightarrow> 'a \<Rightarrow> 'b run) \<Rightarrow> 'b run" where
  "then_run r k = (case r of (seen, Inl e) \<Rightarrow> (seen, Inl e) | (seen, Inr x) \<Rightarrow> k seen x)"

text \<open>
  \<open>len(a) / len(b)\<close>: true division of two non-negative ints. Python returns the float
  nearest to the exact quotient, which is what \<open>Fin\<close> of the exact quotient stands for.
\<close>

definition py_truediv :: "nat \<Rightarrow> nat \<Rightarrow> exn + pyfloat" where
  "py_truediv a b = (if b = 0 then Inl ZeroDivisionError else Inr (Fin (real a / real b)))"

section \<open>The boolean masks\<close>

text \<open>
  The mask of each \<open>.loc\<close> selection, written in the order of the source: the period mask
  tests the upper bound first, the three auxiliary masks test the lower bound first.
\<close>

definition period_mask :: "args \<Rightarrow> row \<Rightarrow> bool" where
  "period_mask a r =
     (fl_lt (col_prot_rh20 r) (fl_add (input_period a) (period_upper_limit a)) \<and>
      fl_gt (col_prot_rh20 r) (fl_sub (input_period a) (period_lower_limit a)))"

definition power_mask :: "args \<Rightarrow> pyfloat \<Rightarrow> row \<Rightarrow> bool" where
  "power_mask a v r =
     (fl_gt (col_power r) (fl_sub v (ls_lower_limit a)) \<and>
      fl_lt (col_power r) (fl_add v (ls_upper_limit a)))"

definition Tmag_mask :: "args \<Rightarrow> pyfloat \<Rightarrow> row \<Rightarrow> bool" where
  "Tmag_mask a v r =
     (fl_gt (col_Tmag r) (fl_sub v (t_lower_limit a)) \<and>
      fl_lt (col_Tmag r) (fl_add v (t_upper_limit a)))"

definition snr_mask :: "args \<Rightarrow> pyfloat \<Rightarrow> row \<Rightarrow> bool" where
  "snr_mask a v r =
     (fl_gt (col_snr r) (fl_sub v (snr_lower_limit a)) \<and>
      fl_lt (col_snr r) (fl_add v (snr_upper_limit a)))"

section \<open>The blocks shared by the two estimators\<close>

text \<open>
  The three \<open>if ... is not None\<close> blocks are the same text in both functions. Each takes
  the selections seen so far and the current \<open>param_df\<close>. The assertion on \<open>ls\<close> and the
  one on \<open>snr\<close> stand inside their block, before the block's own selection.
\<close>

definition ls_block :: "args \<Rightarrow> axis list \<Rightarrow> dataframe \<Rightarrow> dataframe run" where
  "ls_block a seen param_df =
     (case ls a of
        None \<Rightarrow> (seen, Inr param_df)
      | Some v \<Rightarrow>
          if \<not> (fl_lt (Fin 0) v \<and> fl_lt v (Fin 1))
          then (seen, Inl (AssertionError ''Lomb-Scargle power must be between 0 and 1''))
          else (seen @ [Power], Inr (filter (power_mask a v) param_df)))"

definition t_block :: "args \<Rightarrow> axis list \<Rightarrow> dataframe \<Rightarrow> dataframe run" where
  "t_block a seen param_df =
     (case t a of
        None \<Rightarrow> (seen, Inr param_df)
      | Some v \<Rightarrow> (seen @ [Magnitude], Inr (filter (Tmag_mask a v) param_df)))"

definition snr_block :: "args \<Rightarrow> axis list \<Rightarrow> dataframe \<Rightarrow> dataframe run" where
  "snr_block a seen param_df =
     (case snr a of
        None \<Rightarrow> (seen, Inr param_df)
      | Some v \<Rightarrow>
          if \<not> fl_gt v (Fin 0)
          then (seen, Inl (AssertionError ''SNR must be greater than 0''))
          else (seen @ [Snr], Inr (filter (snr_mask a v) param_df)))"

text \<open>The \<open>if mode == 'match' ... elif mode == 'alias' ... else\<close> chain, also shared.\<close>

definition status_rows :: "string \<Rightarrow> dataframe \<Rightarrow> dataframe" where
  "status_rows m param_df =
     (if m = ''match'' then filter (\<lambda>r. col_status r = ''match'') param_df
      else if m = ''alias'' then filter (\<lambda>r. col_status r = ''alias'') param_df
      else filter (\<lambda>r. col_status r \<noteq> ''not_recovered'') param_df)"

text \<open>The three assertions at the head of both functions, as their conditions.\<close>

definition period_ok :: "args \<Rightarrow> bool" where
  "period_ok a = (fl_lt (Fin 0.2) (input_period a) \<and> fl_lt (input_period a) (Fin 20))"

definition aux_given :: "args \<Rightarrow> bool" where
  "aux_given a = (ls a \<noteq> None \<or> t a \<noteq> None \<or> snr a \<noteq> None)"

definition mode_ok :: "args \<Rightarrow> bool" where
  "mode_ok a = (mode a \<in> set [''match'', ''alias'', ''recovery''])"

definition aux_message :: string where
  "aux_message = ''Please specify a value for at least one of LS, T, SNR''"

definition mode_message :: string where
  "mode_message = ''Mode must be one of 'match', 'alias', or 'recovery'' @ [CHR 0x27]"

section \<open>calculate_reliability\<close>

definition calculate_reliability_run :: "dataframe \<Rightarrow> args \<Rightarrow> pyfloat option run" where
  "calculate_reliability_run df a =
     (if \<not> period_ok a
      then ([], Inl (AssertionError
              ''The input rotation period must be between 0.2 and 20 days''))
      else if \<not> aux_given a then ([], Inl (AssertionError aux_message))
      else if \<not> mode_ok a then ([], Inl (AssertionError mode_message))
      else
        then_run (ls_block a [Period] (filter (period_mask a) df)) (\<lambda>seen1 df1.
        then_run (t_block a seen1 df1) (\<lambda>seen2 df2.
        then_run (snr_block a seen2 df2) (\<lambda>seen3 param_df.
          if length param_df < 3 then (seen3, Inr None)
          else
            (case py_truediv (length (status_rows (mode a) param_df)) (length param_df) of
               Inl e \<Rightarrow> (seen3, Inl e)
             | Inr ratio \<Rightarrow> (seen3, Inr (Some ratio)))))))"

definition calculate_reliability :: "dataframe \<Rightarrow> args \<Rightarrow> exn + pyfloat option" where
  "calculate_reliability df a = snd (calculate_reliability_run df a)"

section \<open>calculate_completeness\<close>

text \<open>
  The same blocks; \<open>all_df\<close> is kept aside, tested against 3 after the three blocks have
  run, and is the divisor. The message of the period assertion differs from the one of
  \<open>calculate_reliability\<close>.
\<close>

definition calculate_completeness_run :: "dataframe \<Rightarrow> args \<Rightarrow> pyfloat option run" where
  "calculate_completeness_run df a =
     (if \<not> period_ok a
      then ([], Inl (AssertionError
              ''The input rotation period must be between 0 and 20 days''))
      else if \<not> aux_given a then ([], Inl (AssertionError aux_message))
      else if \<not> mode_ok a then ([], Inl (AssertionError mode_message))
      else
        (let all_df = filter (period_mask a) df in
        then_run (ls_block a [Period] all_df) (\<lambda>seen1 df1.
        then_run (t_block a seen1 df1) (\<lambda>seen2 df2.
        then_run (snr_block a seen2 df2) (\<lambda>seen3 param_df.
          if length all_df < 3 then (seen3, Inr None)
          else
            (case py_truediv (length (status_rows (mode a) param_df)) (length all_df) of
               Inl e \<Rightarrow> (seen3, Inl e)
             | Inr ratio \<Rightarrow> (seen3, Inr (Some ratio))))))))"

definition calculate_completeness :: "dataframe \<Rightarrow> args \<Rightarrow> exn + pyfloat option" where
  "calculate_completeness df a = snd (calculate_completeness_run df a)"

section \<open>The frames and conditions the properties speak about\<close>

text \<open>
  The values of the source's variables when the last block has run without a failed
  assertion: \<open>all_df\<close> (the selection on the period alone, line 154) and \<open>param_df\<close>
  (after the blocks of the supplied axes, lines 111 and 190).
\<close>

definition all_df :: "dataframe \<Rightarrow> args \<Rightarrow> dataframe" where
  "all_df df a = filter (period_mask a) df"

definition ls_rows :: "args \<Rightarrow> dataframe \<Rightarrow> dataframe" where
  "ls_rows a d = (case ls a of None \<Rightarrow> d | Some v \<Rightarrow> filter (power_mask a v) d)"

definition t_rows :: "args \<Rightarrow> dataframe \<Rightarrow> dataframe" where
  "t_rows a d = (case t a of None \<Rightarrow> d | Some v \<Rightarrow> filter (Tmag_mask a v) d)"

definition snr_rows :: "args \<Rightarrow> dataframe \<Rightarrow> dataframe" where
  "snr_rows a d = (case snr a of None \<Rightarrow> d | Some v \<Rightarrow> filter (snr_mask a v) d)"

definition param_df :: "dataframe \<Rightarrow> args \<Rightarrow> dataframe" where
  "param_df df a = snr_rows a (t_rows a (ls_rows a (all_df df a)))"

text \<open>The selections a run executes when no assertion fails.\<close>

definition selections :: "args \<Rightarrow> axis list" where
  "selections a =
     [Period] @ (if ls a = None then [] else [Power]) @
     (if t a = None then [] else [Magnitude]) @ (if snr a = None then [] else [Snr])"

text \<open>The conditions of the two assertions that stand inside a block.\<close>

definition ls_ok :: "args \<Rightarrow> bool" where
  "ls_ok a = (case ls a of None \<Rightarrow> True | Some v \<Rightarrow> fl_lt (Fin 0) v \<and> fl_lt v (Fin 1))"

definition snr_ok :: "args \<Rightarrow> bool" where
  "snr_ok a = (case snr a of None \<Rightarrow> True | Some v \<Rightarrow> fl_gt v (Fin 0))"

text \<open>A valid query: one on which none of the five assertions fails.\<close>

definition valid_query :: "args \<Rightarrow> bool" where
  "valid_query a = (period_ok a \<and> aux_given a \<and> mode_ok a \<and> ls_ok a \<and> snr_ok a)"

text \<open>
  The window of the specification: a value is inside when it is strictly above
  \<open>center - lower\<close> and strictly below \<open>center + upper\<close>. A supplied axis constrains
  its column, an absent one constrains nothing.
\<close>

definition in_window :: "pyfloat \<Rightarrow> pyfloat \<Rightarrow> pyfloat \<Rightarrow> pyfloat \<Rightarrow> bool" where
  "in_window v center lower upper =
     (fl_gt v (fl_sub center lower) \<and> fl_lt v (fl_add center upper))"

definition in_period_window :: "args \<Rightarrow> row \<Rightarrow> bool" where
  "in_period_window a r =
     in_window (col_prot_rh20 r) (input_period a) (period_lower_limit a) (period_upper_limit a)"

definition in_aux_windows :: "args \<Rightarrow> row \<Rightarrow> bool" where
  "in_aux_windows a r =
     ((case ls a of None \<Rightarrow> True
       | Some v \<Rightarrow> in_window (col_power r) v (ls_lower_limit a) (ls_upper_limit a)) \<and>
      (case t a of None \<Rightarrow> True
       | Some v \<Rightarrow> in_window (col_Tmag r) v (t_lower_limit a) (t_upper_limit a)) \<and>
      (case snr a of None \<Rightarrow> True
       | Some v \<Rightarrow> in_window (col_snr r) v (snr_lower_limit a) (snr_upper_limit a)))"

text \<open>
  The status predicate of the specification: \<open>match\<close> selects the status \<open>match\<close>,
  \<open>alias\<close> the status \<open>alias\<close>, \<open>recovery\<close> every status other than
  \<open>not_recovered\<close>. It says nothing about any other mode.
\<close>

definition status_pred :: "string \<Rightarrow> string \<Rightarrow> bool" where
  "status_pred m s =
     ((m = ''match'' \<and> s = ''match'') \<or> (m = ''alias'' \<and> s = ''alias'') \<or>
      (m = ''recovery'' \<and> s \<noteq> ''not_recovered''))"

text \<open>
  Widening: \<open>a'\<close> is \<open>a\<close> with some of the eight limits increased and everything else
  unchanged. A limit that stays the same may be any float, NaN included.
\<close>

definition wider :: "pyfloat \<Rightarrow> pyfloat \<Rightarrow> bool" where
  "wider l l' = (l' = l \<or> fl_lt l l')"

definition widened :: "args \<Rightarrow> args \<Rightarrow> bool" where
  "widened a a' =
     (input_period a' = input_period a \<and> ls a' = ls a \<and> t a' = t a \<and> snr a' = snr a \<and>
      mode a' = mode a \<and>
      wider (period_lower_limit a) (period_lower_limit a') \<and>
      wider (period_upper_limit a) (period_upper_limit a') \<and>
      wider (ls_lower_limit a) (ls_lower_limit a') \<and>
      wider (ls_upper_limit a) (ls_upper_limit a') \<and>
      wider (t_lower_limit a) (t_lower_limit a') \<and>
      wider (t_upper_limit a) (t_upper_limit a') \<and>
      wider (snr_lower_limit a) (snr_lower_limit a') \<and>
      wider (snr_upper_limit a) (snr_upper_limit a'))"

text \<open>Two argument sets that differ in their limits at most.\<close>

definition same_but_limits :: "args \<Rightarrow> args \<Rightarrow> bool" where
  "same_but_limits a a' =
     (input_period a' = input_period a \<and> ls a' = ls a \<and> t a' = t a \<and> snr a' = snr a \<and>
      mode a' = mode a)"

text \<open>
  A window with \<open>lower + upper <= 0\<close>: no value lies strictly between
  \<open>center - lower\<close> and \<open>center + upper\<close>.
\<close>

definition empty_window :: "pyfloat \<Rightarrow> pyfloat \<Rightarrow> bool" where
  "empty_window lower upper = fl_le (fl_add lower upper) (Fin 0)"

definition aux_window_empty :: "args \<Rightarrow> bool" where
  "aux_window_empty a =
     ((ls a \<noteq> None \<and> empty_window (ls_lower_limit a) (ls_upper_limit a)) \<or>
      (t a \<noteq> None \<and> empty_window (t_lower_limit a) (t_upper_limit a)) \<or>
      (snr a \<noteq> None \<and> empty_window (snr_lower_limit a) (snr_upper_limit a)))"

section \<open>A concrete catalogue\<close>

text \<open>
  The five-row catalogue of the specification's scenario (periods 8.5, 9.0, 9.4, 9.6 and 15,
  every status \<open>match\<close> but one), with one choice of the values the scenario leaves open,
  and its query: period 9, power 0.1 with the window (0.05, 0.05).
\<close>

definition sample_df :: dataframe where
  "sample_df =
     [\<lparr>col_prot_rh20 = Fin 8.5, col_power = Fin 0.08, col_Tmag = Fin 10.2, col_snr = Fin 6,
        col_status = ''match''\<rparr>,
      \<lparr>col_prot_rh20 = Fin 9, col_power = Fin 0.1, col_Tmag = Fin 11, col_snr = NaN,
        col_status = ''not_recovered''\<rparr>,
      \<lparr>col_prot_rh20 = Fin 9.4, col_power = Fin 0.12, col_Tmag = NaN, col_snr = Fin 7.5,
        col_status = ''match''\<rparr>,
      \<lparr>col_prot_rh20 = Fin 9.6, col_power = Fin 0.09, col_Tmag = Fin 10.4, col_snr = Fin 5,
        col_status = ''match''\<rparr>,
      \<lparr>col_prot_rh20 = Fin 15, col_power = Fin 0.1, col_Tmag = Fin 10, col_snr = Fin 6,
        col_status = ''match''\<rparr>]"

definition scenario_args :: "string \<Rightarrow> args" where
  "scenario_args m =
     (default_args (Fin 9))\<lparr>ls := Some (Fin 0.1), ls_lower_limit := Fin 0.05,
        ls_upper_limit := Fin 0.05, mode := m\<rparr>"

definition sample_args :: args where
  "sample_args = (default_args (Fin 9))\<lparr>ls := Some (Fin 0.1)\<rparr>"

text \<open>The same query with a wider period window and no lower bound on the power.\<close>

definition wide_args :: args where
  "wide_args = sample_args\<lparr>period_upper_limit := Fin 7, ls_lower_limit := PosInf\<rparr>"

text \<open>The same query with the power window (0, 0).\<close>

definition narrow_args :: args where
  "narrow_args = sample_args\<lparr>ls_lower_limit := Fin 0, ls_upper_limit := Fin 0\<rparr>"

text \<open>
  Rows that lie on a rounded bound. \<open>1.1 + 2.2\<close> is the float \<open>3.3000000000000003\<close> and
  \<open>0.1 + 0.05\<close> the float \<open>0.15000000000000002\<close>, so a period of 3.3 and a power of 0.15
  are inside their windows; \<open>0.7 + 0.1\<close> is the float \<open>0.7999999999999999\<close>, so that
  period is on the bound and outside.
\<close>

definition inside_row :: row where
  "inside_row =
     \<lparr>col_prot_rh20 = Fin 3.3, col_power = Fin 0.15, col_Tmag = NaN, col_snr = NaN,
      col_status = ''match''\<rparr>"

definition bound_row :: row where
  "bound_row =
     \<lparr>col_prot_rh20 = Fin 0.7999999999999999, col_power = Fin 0.15, col_Tmag = NaN,
      col_snr = NaN, col_status = ''match''\<rparr>"

definition rounded_up_args :: args where
  "rounded_up_args =
     (default_args (Fin 1.1))\<lparr>period_upper_limit := Fin 2.2, ls := Some (Fin 0.1)\<rparr>"

definition rounded_down_args :: args where
  "rounded_down_args =
     (default_args (Fin 0.7))\<lparr>period_upper_limit := Fin 0.1, ls := Some (Fin 0.1)\<rparr>"

section \<open>Rounding: bounds, monotonicity, fixed points\<close>

lemma ilog2_bounds: "0 < n \<Longrightarrow> 2 ^ ilog2 n \<le> n \<and> n < 2 ^ Suc (ilog2 n)"
proof (induction n rule: ilog2.induct)
  case (1 n)
  show ?case
  proof (cases "n < 2")
    case True
    with "1.prems" have "n = 1" by simp
    then show ?thesis by (simp add: ilog2.simps)
  next
    case False
    then have pos: "0 < n div 2" by simp
    from "1.IH" [OF False pos]
    have ih: "2 ^ ilog2 (n div 2) \<le> n div 2" "n div 2 < 2 ^ Suc (ilog2 (n div 2))"
      by simp_all
    have eq: "ilog2 n = Suc (ilog2 (n div 2))"
      using False by (subst ilog2.simps) simp
    from ih show ?thesis
      unfolding eq by (simp; linarith)
  qed
qed

lemma ilog2_bounds_real:
  assumes "0 < n"
  shows "(2::real) ^ ilog2 n \<le> real n" "real n + 1 \<le> 2 ^ Suc (ilog2 n)"
proof -
  from ilog2_bounds [OF assms]
  have b: "2 ^ ilog2 n \<le> n" "Suc n \<le> 2 ^ Suc (ilog2 n)" by simp_all
  from b(1) have "real (2 ^ ilog2 n) \<le> real n" by (simp only: of_nat_le_iff)
  then show "(2::real) ^ ilog2 n \<le> real n" by simp
  from b(2) have "real (Suc n) \<le> real (2 ^ Suc (ilog2 n))" by (simp only: of_nat_le_iff)
  then show "real n + 1 \<le> 2 ^ Suc (ilog2 n)" by simp
qed

lemma exponent_bounds:
  assumes "0 < x"
  shows "2 powi exponent x \<le> x \<and> x < 2 powi (exponent x + 1)"
proof (cases "1 \<le> x")
  case True
  define n where "n = nat \<lfloor>x\<rfloor>"
  from True have n: "0 < n" "real n \<le> x" "x < real n + 1"
    by (simp_all add: n_def)
  note b = ilog2_bounds_real [OF n(1)]
  have e: "exponent x = int (ilog2 n)"
    using True by (simp add: exponent_def n_def)
  have p: "2 powi exponent x = (2::real) ^ ilog2 n"
    "2 powi (exponent x + 1) = (2::real) ^ Suc (ilog2 n)"
    by (simp_all add: e power_int_add)
  from b n show ?thesis
    unfolding p by (intro conjI; linarith)
next
  case False
  with assms have x: "0 < x" "x < 1" by simp_all
  define y where "y = 1 / x"
  define n where "n = nat \<lceil>y\<rceil> - 1"
  from x have y: "1 < y" by (simp add: y_def)
  then have "2 \<le> \<lceil>y\<rceil>" by linarith
  then have n: "0 < n" "real n < y" "y \<le> real n + 1"
    unfolding n_def by (simp_all; linarith)+
  note 1 = ilog2_bounds_real(1) [OF n(1)] and 2 = ilog2_bounds_real(2) [OF n(1)]
  have e: "exponent x = - int (ilog2 n) - 1"
    using False by (simp add: exponent_def n_def y_def)
  have lo: "2 powi (- int (ilog2 n) - 1) \<le> x"
  proof -
    from n(3) 2 have "y \<le> 2 ^ Suc (ilog2 n)" by linarith
    then have "1 / 2 ^ Suc (ilog2 n) \<le> 1 / y"
      using y by (intro divide_left_mono) simp_all
    moreover have "1 / y = x" using x by (simp add: y_def)
    moreover have "2 powi (- int (ilog2 n) - 1) = 1 / (2::real) ^ Suc (ilog2 n)"
    proof -
      have "- int (ilog2 n) - 1 = - int (Suc (ilog2 n))" by simp
      then show ?thesis
        by (simp only: power_int_minus_divide power_int_of_nat)
    qed
    ultimately show ?thesis by simp
  qed
  have hi: "x < 2 powi (- int (ilog2 n))"
  proof -
    from n(2) 1 have "2 ^ ilog2 n < y" by linarith
    then have "1 / y < 1 / 2 ^ ilog2 n"
      using y by (intro divide_strict_left_mono) simp_all
    moreover have "1 / y = x" using x by (simp add: y_def)
    moreover have "2 powi (- int (ilog2 n)) = 1 / (2::real) ^ ilog2 n"
      by (simp only: power_int_minus_divide power_int_of_nat)
    ultimately show ?thesis by simp
  qed
  from lo hi show ?thesis by (simp add: e)
qed


lemma round_half_even_bounds: "\<lfloor>x\<rfloor> \<le> round_half_even x \<and> round_half_even x \<le> \<lfloor>x\<rfloor> + 1"
  by (simp add: round_half_even_def Let_def)

lemma round_half_even_of_int: "round_half_even (of_int k) = k"
  by (simp add: round_half_even_def Let_def)

lemma round_half_even_mono:
  assumes "x \<le> y"
  shows "round_half_even x \<le> round_half_even y"
proof (cases "\<lfloor>x\<rfloor> = \<lfloor>y\<rfloor>")
  case True
  with assms show ?thesis
    by (auto simp: round_half_even_def Let_def)
next
  case False
  with assms have "\<lfloor>x\<rfloor> + 1 \<le> \<lfloor>y\<rfloor>"
    using floor_mono [of x y] by linarith
  with round_half_even_bounds [of x] round_half_even_bounds [of y]
  show ?thesis by linarith
qed

lemma quantum_pos: "0 < quantum x"
  by (simp add: quantum_def)

lemma round_pos_quantum: "round_pos x = of_int (round_half_even (x / quantum x)) * quantum x"
  by (simp add: round_pos_def quantum_def Let_def)

lemma two_powi_add: "(2::real) powi (m + n) = 2 powi m * 2 powi n"
  by (simp add: power_int_add)

lemma quantum_top: "2 powi (max (exponent x) (- 1022) + 1) = 2 ^ 53 * quantum x"
  using two_powi_add [of 53 "max (exponent x) (- 1022) - 52"]
  by (simp add: quantum_def add.commute)

lemma quantum_bottom: "2 powi (max (exponent x) (- 1022)) = 2 ^ 52 * quantum x"
  using two_powi_add [of 52 "max (exponent x) (- 1022) - 52"] by (simp add: quantum_def)

lemma round_pos_upper:
  assumes "0 < x"
  shows "round_pos x \<le> 2 powi (max (exponent x) (- 1022) + 1)"
proof -
  have "x < 2 powi (exponent x + 1)"
    using exponent_bounds [OF assms] by simp
  also have "\<dots> \<le> 2 powi (max (exponent x) (- 1022) + 1)"
    by (rule power_int_increasing) simp_all
  finally have "x < 2 ^ 53 * quantum x"
    by (simp only: quantum_top)
  then have "x / quantum x \<le> of_int (2 ^ 53)"
    using quantum_pos [of x] by (simp add: field_simps)
  then have "round_half_even (x / quantum x) \<le> 2 ^ 53"
    using round_half_even_mono round_half_even_of_int by metis
  then have "(of_int (round_half_even (x / quantum x)) :: real) \<le> of_int (2 ^ 53)"
    by (simp only: of_int_le_iff)
  then have "of_int (round_half_even (x / quantum x)) * quantum x \<le> 2 ^ 53 * quantum x"
    using quantum_pos [of x] by simp
  then show ?thesis
    by (simp only: round_pos_quantum quantum_top)
qed

lemma round_pos_lower:
  assumes "0 < x" "- 1022 \<le> exponent x"
  shows "2 powi exponent x \<le> round_pos x"
proof -
  from assms(2) have m: "max (exponent x) (- 1022) = exponent x" by simp
  have "2 ^ 52 * quantum x \<le> x"
    using exponent_bounds [OF assms(1)] quantum_bottom [of x] by (simp add: m)
  then have "of_int (2 ^ 52) \<le> x / quantum x"
    using quantum_pos [of x] by (simp add: field_simps)
  then have "2 ^ 52 \<le> round_half_even (x / quantum x)"
    using round_half_even_mono round_half_even_of_int by metis
  then have "(of_int (2 ^ 52) :: real) \<le> of_int (round_half_even (x / quantum x))"
    by (simp only: of_int_le_iff)
  then have "2 ^ 52 * quantum x \<le> of_int (round_half_even (x / quantum x)) * quantum x"
    using quantum_pos [of x] by simp
  then show ?thesis
    using quantum_bottom [of x] by (simp add: round_pos_quantum m)
qed

lemma round_pos_nonneg:
  assumes "0 < x"
  shows "0 \<le> round_pos x"
proof -
  have "0 \<le> x / quantum x"
    using assms quantum_pos [of x] by simp
  then have "round_half_even (of_int 0) \<le> round_half_even (x / quantum x)"
    by (intro round_half_even_mono) simp
  then have "0 \<le> round_half_even (x / quantum x)"
    by (simp only: round_half_even_of_int)
  then show ?thesis
    using quantum_pos [of x] by (simp add: round_pos_quantum)
qed

lemma exponent_mono:
  assumes "0 < x" "x \<le> y"
  shows "exponent x \<le> exponent y"
proof (rule ccontr)
  assume "\<not> exponent x \<le> exponent y"
  then have "exponent y + 1 \<le> exponent x" by simp
  then have "(2::real) powi (exponent y + 1) \<le> 2 powi exponent x"
    by (rule power_int_increasing) simp
  moreover have "2 powi exponent x \<le> x"
    using exponent_bounds [OF assms(1)] by simp
  moreover from assms have "0 < y" by simp
  then have "y < 2 powi (exponent y + 1)"
    using exponent_bounds by simp
  ultimately show False using assms(2) by linarith
qed

lemma round_pos_mono:
  assumes "0 < x" "x \<le> y"
  shows "round_pos x \<le> round_pos y"
proof -
  from assms have y: "0 < y" by simp
  let ?cx = "max (exponent x) (- 1022)" and ?cy = "max (exponent y) (- 1022)"
  from exponent_mono [OF assms] have le: "?cx \<le> ?cy" by simp
  show ?thesis
  proof (cases "?cx = ?cy")
    case True
    then have q: "quantum x = quantum y" by (simp add: quantum_def)
    have "x / quantum y \<le> y / quantum y"
      using assms(2) quantum_pos [of y] by (simp add: divide_right_mono)
    then have "round_half_even (x / quantum y) \<le> round_half_even (y / quantum y)"
      by (rule round_half_even_mono)
    then have "(of_int (round_half_even (x / quantum y)) :: real) \<le>
        of_int (round_half_even (y / quantum y))"
      by (simp only: of_int_le_iff)
    then show ?thesis
      using quantum_pos [of y] by (simp add: round_pos_quantum q)
  next
    case False
    with le have lt: "?cx + 1 \<le> ?cy" by simp
    then have ey: "- 1022 \<le> exponent y" "?cy = exponent y" by simp_all
    have "round_pos x \<le> 2 powi (?cx + 1)"
      by (rule round_pos_upper [OF assms(1)])
    also have "\<dots> \<le> 2 powi ?cy"
      using lt by (rule power_int_increasing) simp
    also have "\<dots> = 2 powi exponent y"
      by (simp only: ey(2))
    also have "\<dots> \<le> round_pos y"
      by (rule round_pos_lower [OF y ey(1)])
    finally show ?thesis .
  qed
qed


lemma round_pos_grid:
  "\<exists>k. round_pos x = of_int k * 2 powi (- 1074)"
proof -
  let ?c = "max (exponent x) (- 1022)"
  have "0 \<le> ?c + 1022" by simp
  then have "(2::real) powi (?c + 1022) = of_int (2 ^ nat (?c + 1022))"
    by (simp add: power_int_def)
  moreover have "quantum x = 2 powi (?c + 1022) * 2 powi (- 1074)"
    using two_powi_add [of "?c + 1022" "- 1074"] by (simp add: quantum_def)
  ultimately have "round_pos x =
      of_int (round_half_even (x / quantum x) * 2 ^ nat (?c + 1022)) * 2 powi (- 1074)"
    by (simp add: round_pos_quantum)
  then show ?thesis ..
qed

lemma round_pos_pos:
  assumes "2 powi (- 1074) \<le> x"
  shows "0 < round_pos x"
proof -
  have u: "(0::real) < 2 powi (- 1074)" by simp
  with assms have x: "0 < x" by linarith
  show ?thesis
  proof (cases "- 1022 \<le> exponent x")
    case True
    have "(0::real) < 2 powi exponent x" by simp
    also have "\<dots> \<le> round_pos x" by (rule round_pos_lower [OF x True])
    finally show ?thesis .
  next
    case False
    then have q: "quantum x = 2 powi (- 1074)" by (simp add: quantum_def)
    from assms have "of_int 1 \<le> x / quantum x"
      unfolding q using u by (simp add: field_simps)
    then have "round_half_even (of_int 1) \<le> round_half_even (x / quantum x)"
      by (rule round_half_even_mono)
    then have "1 \<le> round_half_even (x / quantum x)"
      by (simp only: round_half_even_of_int)
    then have "(0::real) < of_int (round_half_even (x / quantum x))" by simp
    then show ?thesis
      using quantum_pos [of x] by (simp add: round_pos_quantum)
  qed
qed

lemma nearest_double_mono:
  assumes "x \<le> y"
  shows "nearest_double x \<le> nearest_double y"
proof -
  consider "0 < x" | "x \<le> 0" "0 \<le> y" | "y < 0" by linarith
  then show ?thesis
  proof cases
    case 1
    with assms round_pos_mono [of x y] show ?thesis
      by (simp add: nearest_double_def)
  next
    case 2
    have "nearest_double x \<le> 0"
      using round_pos_nonneg [of "- x"] 2(1) by (simp add: nearest_double_def)
    moreover have "0 \<le> nearest_double y"
      using round_pos_nonneg [of y] 2(2) by (simp add: nearest_double_def)
    ultimately show ?thesis by linarith
  next
    case 3
    with assms round_pos_mono [of "- y" "- x"] show ?thesis
      by (simp add: nearest_double_def)
  qed
qed

lemma nearest_double_minus: "nearest_double (- x) = - nearest_double x"
  by (simp add: nearest_double_def)

lemma nearest_double_0: "nearest_double 0 = 0"
  by (simp add: nearest_double_def)

lemma nearest_double_grid: "\<exists>k. nearest_double x = of_int k * 2 powi (- 1074)"
proof -
  consider "x = 0" | "0 < x" | "x < 0" by linarith
  then show ?thesis
  proof cases
    case 1
    then have "nearest_double x = of_int 0 * 2 powi (- 1074)"
      by (simp add: nearest_double_def)
    then show ?thesis ..
  next
    case 2
    then show ?thesis
      using round_pos_grid [of x] by (simp add: nearest_double_def)
  next
    case 3
    from round_pos_grid [of "- x"] obtain k where "round_pos (- x) = of_int k * 2 powi (- 1074)" ..
    then have "nearest_double x = of_int (- k) * 2 powi (- 1074)"
      using 3 by (simp add: nearest_double_def)
    then show ?thesis ..
  qed
qed

text \<open>A positive sum of two doubles is at least the smallest positive double.\<close>

lemma grid_sum_pos:
  assumes "0 < nearest_double x + nearest_double y"
  shows "2 powi (- 1074) \<le> nearest_double x + nearest_double y"
proof -
  from nearest_double_grid [of x] obtain j where j: "nearest_double x = of_int j * 2 powi (- 1074)" ..
  from nearest_double_grid [of y] obtain k where k: "nearest_double y = of_int k * 2 powi (- 1074)" ..
  have s: "nearest_double x + nearest_double y = of_int (j + k) * 2 powi (- 1074)"
    by (simp add: j k algebra_simps)
  have u: "(0::real) < 2 powi (- 1074)" by simp
  from assms have "0 < (of_int (j + k) :: real)"
    unfolding s using u by (simp add: zero_less_mult_iff)
  then have "1 \<le> j + k" by simp
  then have "(1::real) \<le> of_int (j + k)" by linarith
  then have "1 * 2 powi (- 1074) \<le> of_int (j + k) * (2::real) powi (- 1074)"
    using u by (intro mult_right_mono) simp_all
  then show ?thesis by (simp only: s mult_1)
qed

lemma nearest_double_pos:
  assumes "2 powi (- 1074) \<le> x"
  shows "0 < nearest_double x"
proof -
  have "(0::real) < 2 powi (- 1074)" by simp
  with assms have "0 < x" by linarith
  with round_pos_pos [OF assms] show ?thesis
    by (simp add: nearest_double_def)
qed

section \<open>Floats: order and arithmetic\<close>

lemma lt_floats_right [simp]: "lt_floats a NaN = False" "lt_floats a NegInf = False"
  by (cases a; simp)+

lemma py_float_cases:
  obtains "py_float x = NegInf" "nearest_double x \<le> - (2 ^ 1024)"
  | "py_float x = Fin (nearest_double x)" "- (2 ^ 1024) < nearest_double x"
      "nearest_double x < 2 ^ 1024"
  | "py_float x = PosInf" "2 ^ 1024 \<le> nearest_double x"
  by (cases "2 ^ 1024 \<le> nearest_double x"; cases "nearest_double x \<le> - (2 ^ 1024)")
     (auto simp: py_float_def Let_def)

lemma py_float_not_NaN: "py_float x \<noteq> NaN"
  by (simp add: py_float_def Let_def)

lemma py_float_mono: "x \<le> y \<Longrightarrow> le_floats (py_float x) (py_float y)"
  using nearest_double_mono [of x y]
  by (auto simp: py_float_def Let_def le_floats_def)

lemma py_float_minus: "py_float (- x) = fl_neg (py_float x)"
  by (auto simp: py_float_def Let_def nearest_double_minus)

lemma py_float_0: "py_float 0 = Fin 0"
  by (simp add: py_float_def nearest_double_0)

lemma the_float_mono: "le_floats a b \<Longrightarrow> le_floats (the_float a) (the_float b)"
proof (cases a; cases b)
  fix x y assume ab: "a = Fin x" "b = Fin y" and le: "le_floats a b"
  then have "x \<le> y" by (simp add: le_floats_def)
  then show "le_floats (the_float a) (the_float b)"
    using ab py_float_mono by simp
next
  fix x assume "a = NegInf" "b = Fin x"
  then show "le_floats (the_float a) (the_float b)"
    by (cases x rule: py_float_cases) (simp_all add: le_floats_def)
next
  fix x assume "a = Fin x" "b = PosInf"
  then show "le_floats (the_float a) (the_float b)"
    by (cases x rule: py_float_cases) (simp_all add: le_floats_def)
qed (simp_all add: le_floats_def)

lemma the_float_neg: "the_float (fl_neg a) = fl_neg (the_float a)"
  by (cases a) (simp_all add: py_float_minus)

lemma the_float_not_NaN: "a \<noteq> NaN \<Longrightarrow> the_float a \<noteq> NaN"
  by (cases a) (simp_all add: py_float_not_NaN)

lemma lt_le_floats: "lt_floats v a \<Longrightarrow> le_floats a b \<Longrightarrow> lt_floats v b"
  by (cases v; cases a; cases b) (simp_all add: le_floats_def)

lemma le_lt_floats: "le_floats b a \<Longrightarrow> lt_floats a v \<Longrightarrow> lt_floats b v"
  by (cases v; cases a; cases b) (simp_all add: le_floats_def)

lemma lt_imp_le_floats: "lt_floats a b \<Longrightarrow> le_floats a b"
  by (cases a; cases b) (simp_all add: le_floats_def)

lemma le_floats_refl: "a \<noteq> NaN \<Longrightarrow> le_floats a a"
  by (cases a) (simp_all add: le_floats_def)

lemma lt_floats_between: "lt_floats a v \<Longrightarrow> lt_floats v b \<Longrightarrow> le_floats b a \<Longrightarrow> False"
  by (cases v; cases a; cases b) (simp_all add: le_floats_def)

lemma add_floats_mono:
  assumes "le_floats u u'" "add_floats c u \<noteq> NaN" "add_floats c u' \<noteq> NaN"
  shows "le_floats (add_floats c u) (add_floats c u')"
proof (cases c; cases u; cases u')
  fix x y z assume *: "c = Fin x" "u = Fin y" "u' = Fin z"
  with assms(1) have "x + y \<le> x + z" by (simp add: le_floats_def)
  from py_float_mono [OF this] show ?thesis by (simp add: *)
qed (use assms in \<open>simp_all add: le_floats_def py_float_not_NaN\<close>)


lemma the_float_Fin_grid:
  assumes "the_float a = Fin x"
  obtains z where "x = nearest_double z"
proof (cases a)
  case (Fin z)
  with assms have "py_float z = Fin x" by simp
  then have "x = nearest_double z"
    by (cases z rule: py_float_cases) simp_all
  then show ?thesis by (rule that)
qed (use assms in simp_all)

lemma nearest_double_pos_grid:
  assumes "0 < nearest_double z"
  shows "2 powi (- 1074) \<le> nearest_double z"
  using grid_sum_pos [of z 0] assms by (simp add: nearest_double_0)

lemma py_float_positive:
  assumes "2 powi (- 1074) \<le> x"
  shows "lt_floats (Fin 0) (py_float x)"
  using nearest_double_pos [OF assms]
  by (cases x rule: py_float_cases) simp_all

lemma the_float_py_float_positive:
  assumes "2 powi (- 1074) \<le> x"
  shows "lt_floats (Fin 0) (the_float (py_float x))"
proof (cases x rule: py_float_cases)
  case 2
  from nearest_double_pos [OF assms] have "2 powi (- 1074) \<le> nearest_double x"
    by (rule nearest_double_pos_grid)
  then show ?thesis
    using 2 py_float_positive by simp
next
  case 1
  with nearest_double_pos [OF assms] show ?thesis by simp
qed simp

text \<open>Monotonicity of the two bounds of a window in its limits.\<close>

lemma upper_bound_mono:
  assumes "u' = u \<or> fl_lt u u'" "fl_lt v (fl_add c u)"
  shows "fl_lt v (fl_add c u')"
proof (cases "u' = u")
  case True
  with assms(2) show ?thesis by simp
next
  case False
  with assms(1) have lt: "lt_floats (the_float u) (the_float u')"
    by (simp add: fl_lt_def)
  from assms(2) have v: "lt_floats (the_float v) (the_float (add_floats (the_float c) (the_float u)))"
    by (simp add: fl_lt_def fl_add_def)
  show ?thesis
  proof (cases "add_floats (the_float c) (the_float u') = NaN")
    case True
    with lt v show ?thesis
      by (cases "the_float c"; cases "the_float u"; cases "the_float u'")
         (simp_all add: py_float_not_NaN)
  next
    case n': False
    from v have n: "add_floats (the_float c) (the_float u) \<noteq> NaN"
      by (cases "the_float v") auto
    from add_floats_mono [OF lt_imp_le_floats [OF lt] n n']
    have "le_floats (the_float (add_floats (the_float c) (the_float u)))
        (the_float (add_floats (the_float c) (the_float u')))"
      by (rule the_float_mono)
    from lt_le_floats [OF v this] show ?thesis
      by (simp add: fl_lt_def fl_add_def)
  qed
qed

lemma fl_neg_antimono: "lt_floats a b \<Longrightarrow> lt_floats (fl_neg b) (fl_neg a)"
  by (cases a; cases b) simp_all

lemma lower_bound_mono:
  assumes "l' = l \<or> fl_lt l l'" "fl_gt v (fl_sub c l)"
  shows "fl_gt v (fl_sub c l')"
proof (cases "l' = l")
  case True
  with assms(2) show ?thesis by simp
next
  case False
  with assms(1) have "lt_floats (the_float l) (the_float l')"
    by (simp add: fl_lt_def)
  then have lt: "lt_floats (the_float (fl_neg l')) (the_float (fl_neg l))"
    by (simp add: the_float_neg fl_neg_antimono)
  from assms(2)
  have v: "lt_floats (the_float (add_floats (the_float c) (the_float (fl_neg l)))) (the_float v)"
    by (simp add: fl_gt_def fl_lt_def fl_sub_def fl_add_def)
  show ?thesis
  proof (cases "add_floats (the_float c) (the_float (fl_neg l')) = NaN")
    case True
    with lt v show ?thesis
      by (cases "the_float c"; cases "the_float (fl_neg l)"; cases "the_float (fl_neg l')")
         (simp_all add: py_float_not_NaN)
  next
    case n': False
    from v have n: "add_floats (the_float c) (the_float (fl_neg l)) \<noteq> NaN"
      by (cases "the_float v") auto
    from add_floats_mono [OF lt_imp_le_floats [OF lt] n' n]
    have "le_floats (the_float (add_floats (the_float c) (the_float (fl_neg l'))))
        (the_float (add_floats (the_float c) (the_float (fl_neg l))))"
      by (rule the_float_mono)
    from le_lt_floats [OF this v] show ?thesis
      by (simp add: fl_gt_def fl_lt_def fl_sub_def fl_add_def)
  qed
qed


lemma window_empty:
  assumes "fl_le (fl_add l u) (Fin 0)"
  shows "\<not> (fl_gt v (fl_sub c l) \<and> fl_lt v (fl_add c u))"
proof (rule notI, elim conjE)
  assume lo: "fl_gt v (fl_sub c l)" and up: "fl_lt v (fl_add c u)"
  let ?L = "the_float l" and ?U = "the_float u" and ?C = "the_float c" and ?V = "the_float v"
  from lo have lo': "lt_floats (the_float (add_floats ?C (fl_neg ?L))) ?V"
    by (simp add: fl_gt_def fl_lt_def fl_sub_def fl_add_def the_float_neg)
  from up have up': "lt_floats ?V (the_float (add_floats ?C ?U))"
    by (simp add: fl_lt_def fl_add_def)
  from assms have h: "lt_floats (the_float (add_floats ?L ?U)) (Fin 0) \<or>
      the_float (add_floats ?L ?U) = Fin 0"
    by (auto simp: fl_le_def fl_lt_def fl_add_def py_float_0)
  show False
  proof (cases ?L)
    case NaN
    with h show False by simp
  next
    case NegInf
    with lo' show False by (cases ?C) simp_all
  next
    case PosInf
    with h show False by (cases ?U) simp_all
  next
    case L: (Fin a)
    show False
    proof (cases ?U)
      case NaN
      with h L show False by simp
    next
      case NegInf
      with up' show False by (cases ?C) simp_all
    next
      case PosInf
      with h L show False by simp
    next
      case U: (Fin b)
      show False
      proof (cases ?C)
        case NaN
        with lo' show False by simp
      next
        case NegInf
        with up' U show False by simp
      next
        case PosInf
        with lo' L show False by simp
      next
        case C: (Fin c')
        from L obtain l0 where a: "a = nearest_double l0" by (rule the_float_Fin_grid)
        from U obtain u0 where b: "b = nearest_double u0" by (rule the_float_Fin_grid)
        have le: "a + b \<le> 0"
        proof (rule ccontr)
          assume "\<not> a + b \<le> 0"
          then have "0 < nearest_double l0 + nearest_double u0" by (simp add: a b)
          then have "2 powi (- 1074) \<le> a + b"
            unfolding a b by (rule grid_sum_pos)
          then have "lt_floats (Fin 0) (the_float (py_float (a + b)))"
            by (rule the_float_py_float_positive)
          with h L U show False
            by (cases "the_float (py_float (a + b))") auto
        qed
        then have "c' + b \<le> c' + - a" by simp
        then have "le_floats (py_float (c' + b)) (py_float (c' + - a))"
          by (rule py_float_mono)
        then have "le_floats (the_float (py_float (c' + b))) (the_float (py_float (c' + - a)))"
          by (rule the_float_mono)
        moreover from lo' L C
        have "lt_floats (the_float (py_float (c' + - a))) ?V" by simp
        moreover from up' U C
        have "lt_floats ?V (the_float (py_float (c' + b)))" by simp
        ultimately show False
          using lt_floats_between by blast
      qed
    qed
  qed
qed

lemma fl_lt_NaN [simp]: "fl_lt NaN b = False" "fl_lt a NaN = False"
  by (simp_all add: fl_lt_def)

lemma fl_lt_irrefl: "\<not> fl_lt a a"
  by (cases "the_float a") (simp_all add: fl_lt_def)

lemma exponent_unique:
  assumes "0 < y" "2 powi e \<le> y" "y < 2 powi (e + 1)"
  shows "exponent y = e"
proof (rule antisym)
  show "exponent y \<le> e"
  proof (rule ccontr)
    assume "\<not> exponent y \<le> e"
    then have "e + 1 \<le> exponent y" by simp
    then have "(2::real) powi (e + 1) \<le> 2 powi exponent y"
      by (rule power_int_increasing) simp
    with exponent_bounds [OF assms(1)] assms(3) show False by linarith
  qed
  show "e \<le> exponent y"
  proof (rule ccontr)
    assume "\<not> e \<le> exponent y"
    then have "exponent y + 1 \<le> e" by simp
    then have "(2::real) powi (exponent y + 1) \<le> 2 powi e"
      by (rule power_int_increasing) simp
    with exponent_bounds [OF assms(1)] assms(2) show False by linarith
  qed
qed

lemma round_pos_fixed:
  assumes c: "- 1022 \<le> c" and k: "0 < k" "k \<le> 2 ^ 53" and sub: "k < 2 ^ 52 \<Longrightarrow> c = - 1022"
  shows "round_pos (of_int k * 2 powi (c - 52)) = of_int k * 2 powi (c - 52)"
proof -
  let ?q = "(2::real) powi (c - 52)"
  let ?y = "of_int k * ?q"
  have q: "0 < ?q" by simp
  from k(1) have y: "0 < ?y" by simp
  have top: "2 powi (c + 1) = 2 ^ 53 * ?q"
    using two_powi_add [of 53 "c - 52"] by (simp add: add.commute)
  have bot: "2 powi c = 2 ^ 52 * ?q"
    using two_powi_add [of 52 "c - 52"] by simp
  consider "k = 2 ^ 53" | "2 ^ 52 \<le> k" "k < 2 ^ 53" | "k < 2 ^ 52" using k(2) by linarith
  then show ?thesis
  proof cases
    case 1
    then have yc: "?y = 2 powi (c + 1)" by (simp add: top)
    have "(2::real) powi (c + 1) < 2 powi (c + 1 + 1)"
      by (rule power_int_strict_increasing) simp_all
    then have e: "exponent ?y = c + 1"
      using y unfolding yc by (intro exponent_unique) simp_all
    have m: "max (c + 1) (- 1022) = c + 1" using c by simp
    have q2: "2 powi (c + 1 - 52) = 2 * ?q"
      using two_powi_add [of 1 "c - 52"] by (simp add: add.commute)
    have "?y / (2 * ?q) = of_int (2 ^ 52)"
      using q by (simp add: 1)
    then have r: "round_half_even (?y / (2 * ?q)) = 2 ^ 52"
      by (simp only: round_half_even_of_int)
    have "round_pos ?y = of_int (round_half_even (?y / (2 * ?q))) * (2 * ?q)"
      by (simp only: round_pos_def Let_def e m q2)
    also have "\<dots> = of_int (2 ^ 52) * (2 * ?q)"
      by (simp only: r)
    also have "\<dots> = ?y"
      by (simp add: 1)
    finally show ?thesis .
  next
    case 2
    have "real_of_int (2 ^ 52) \<le> of_int k" using 2(1) by (simp only: of_int_le_iff)
    then have lo: "2 powi c \<le> ?y"
      unfolding bot using q by simp
    have "real_of_int k < of_int (2 ^ 53)" using 2(2) by (simp only: of_int_less_iff)
    then have hi: "?y < 2 powi (c + 1)"
      unfolding top using q by simp
    have e: "exponent ?y = c" by (rule exponent_unique [OF y lo hi])
    have m: "max c (- 1022) = c" using c by simp
    have "?y / ?q = of_int k" using q by simp
    then have r: "round_half_even (?y / ?q) = k"
      by (simp only: round_half_even_of_int)
    have "round_pos ?y = of_int (round_half_even (?y / ?q)) * ?q"
      by (simp only: round_pos_def Let_def e m)
    then show ?thesis
      by (simp only: r)
  next
    case 3
    then have c': "c = - 1022" by (rule sub)
    have "real_of_int k < of_int (2 ^ 52)" using 3 by (simp only: of_int_less_iff)
    then have hi: "?y < 2 powi c"
      unfolding bot using q by simp
    have "exponent ?y < c"
    proof (rule ccontr)
      assume "\<not> exponent ?y < c"
      then have "(2::real) powi c \<le> 2 powi exponent ?y"
        by (intro power_int_increasing) simp_all
      with exponent_bounds [OF y] hi show False by linarith
    qed
    then have m: "max (exponent ?y) (- 1022) = c" by (simp add: c')
    have "?y / ?q = of_int k" using q by simp
    then have r: "round_half_even (?y / ?q) = k"
      by (simp only: round_half_even_of_int)
    have "round_pos ?y = of_int (round_half_even (?y / ?q)) * ?q"
      by (simp only: round_pos_def Let_def m)
    then show ?thesis
      by (simp only: r)
  qed
qed

lemma round_pos_idem:
  assumes "0 < x" "0 < round_pos x"
  shows "round_pos (round_pos x) = round_pos x"
proof -
  let ?c = "max (exponent x) (- 1022)"
  let ?k = "round_half_even (x / quantum x)"
  have rp: "round_pos x = of_int ?k * 2 powi (?c - 52)"
    by (simp add: round_pos_quantum quantum_def)
  have k0: "0 < ?k"
    using assms(2) quantum_pos [of x] by (simp add: round_pos_quantum zero_less_mult_iff)
  have "of_int ?k * quantum x \<le> 2 ^ 53 * quantum x"
    using round_pos_upper [OF assms(1)] by (simp only: round_pos_quantum quantum_top)
  then have "real_of_int ?k \<le> of_int (2 ^ 53)"
    using quantum_pos [of x] by simp
  then have k1: "?k \<le> 2 ^ 53" by (simp only: of_int_le_iff)
  have sub: "?c = - 1022" if "?k < 2 ^ 52"
  proof (rule ccontr)
    assume "?c \<noteq> - 1022"
    then have e: "- 1022 \<le> exponent x" "?c = exponent x" by simp_all
    have "2 ^ 52 * quantum x \<le> of_int ?k * quantum x"
      using round_pos_lower [OF assms(1) e(1)] quantum_bottom [of x]
      by (simp add: round_pos_quantum e(2))
    then have "real_of_int (2 ^ 52) \<le> of_int ?k"
      using quantum_pos [of x] by simp
    then have "2 ^ 52 \<le> ?k" by (simp only: of_int_le_iff)
    with that show False by simp
  qed
  have c: "- 1022 \<le> ?c" by simp
  from round_pos_fixed [OF c k0 k1 sub] show ?thesis
    by (simp only: rp)
qed

lemma nearest_double_idem: "nearest_double (nearest_double x) = nearest_double x"
proof -
  consider "x = 0" | "0 < x" "round_pos x = 0" | "0 < x" "0 < round_pos x"
    | "x < 0" "round_pos (- x) = 0" | "x < 0" "0 < round_pos (- x)"
    using round_pos_nonneg [of x] round_pos_nonneg [of "- x"] by fastforce
  then show ?thesis
  proof cases
    case 3
    with round_pos_idem [of x] show ?thesis by (simp add: nearest_double_def)
  next
    case 5
    with round_pos_idem [of "- x"] show ?thesis by (simp add: nearest_double_def)
  qed (simp_all add: nearest_double_def)
qed

lemma the_float_py_float: "the_float (py_float x) = py_float x"
  by (cases x rule: py_float_cases) (simp_all add: py_float_def nearest_double_idem)

lemma the_float_idem: "the_float (the_float a) = the_float a"
  by (cases a) (simp_all add: the_float_py_float)

lemma the_float_add_floats: "the_float (add_floats a b) = add_floats a b"
  by (cases a; cases b) (simp_all add: the_float_py_float)

lemma the_float_fl_add: "the_float (fl_add a b) = fl_add a b"
  by (simp add: fl_add_def the_float_add_floats)

text \<open>The rules that evaluate the float operations on numerals.\<close>

lemmas float_eval = py_float_def nearest_double_def round_pos_def exponent_def
  round_half_even_def Let_def ilog2.simps fl_add_def fl_sub_def fl_lt_def fl_gt_def fl_le_def

section \<open>What a run does\<close>

lemma then_run_Inr: "then_run (s, Inr x) k = k s x"
  by (simp add: then_run_def)

lemma then_run_Inl: "then_run (s, Inl e) k = (s, Inl e)"
  by (simp add: then_run_def)

lemma ls_block_ok:
  "ls_ok a \<Longrightarrow>
   ls_block a s d = (s @ (if ls a = None then [] else [Power]), Inr (ls_rows a d))"
  by (auto simp: ls_block_def ls_ok_def ls_rows_def split: option.splits)

lemma ls_block_bad:
  "\<not> ls_ok a \<Longrightarrow>
   ls_block a s d = (s, Inl (AssertionError ''Lomb-Scargle power must be between 0 and 1''))"
  by (auto simp: ls_block_def ls_ok_def split: option.splits)

lemma t_block_ok:
  "t_block a s d = (s @ (if t a = None then [] else [Magnitude]), Inr (t_rows a d))"
  by (simp add: t_block_def t_rows_def split: option.splits)

lemma snr_block_ok:
  "snr_ok a \<Longrightarrow>
   snr_block a s d = (s @ (if snr a = None then [] else [Snr]), Inr (snr_rows a d))"
  by (auto simp: snr_block_def snr_ok_def snr_rows_def split: option.splits)

lemma snr_block_bad:
  "\<not> snr_ok a \<Longrightarrow> snr_block a s d = (s, Inl (AssertionError ''SNR must be greater than 0''))"
  by (auto simp: snr_block_def snr_ok_def split: option.splits)

subsection \<open>Runs on which no assertion fails\<close>

lemma reliability_run_valid:
  assumes "valid_query a"
  shows "calculate_reliability_run df a =
           (selections a,
            Inr (if length (param_df df a) < 3 then None
                 else Some (Fin (real (length (status_rows (mode a) (param_df df a))) /
                                 real (length (param_df df a))))))"
proof -
  from assms have ok: "period_ok a" "aux_given a" "mode_ok a" "ls_ok a" "snr_ok a"
    by (simp_all add: valid_query_def)
  show ?thesis
    unfolding calculate_reliability_run_def
    by (simp add: ok ls_block_ok t_block_ok snr_block_ok then_run_Inr selections_def
        param_df_def all_df_def py_truediv_def)
qed

lemma completeness_run_valid:
  assumes "valid_query a"
  shows "calculate_completeness_run df a =
           (selections a,
            Inr (if length (all_df df a) < 3 then None
                 else Some (Fin (real (length (status_rows (mode a) (param_df df a))) /
                                 real (length (all_df df a))))))"
proof -
  from assms have ok: "period_ok a" "aux_given a" "mode_ok a" "ls_ok a" "snr_ok a"
    by (simp_all add: valid_query_def)
  show ?thesis
    unfolding calculate_completeness_run_def
    by (simp add: ok ls_block_ok t_block_ok snr_block_ok then_run_Inr selections_def
        param_df_def all_df_def py_truediv_def Let_def)
qed

lemma calculate_reliability_valid:
  "valid_query a \<Longrightarrow>
   calculate_reliability df a =
     Inr (if length (param_df df a) < 3 then None
          else Some (Fin (real (length (status_rows (mode a) (param_df df a))) /
                          real (length (param_df df a)))))"
  by (simp add: calculate_reliability_def reliability_run_valid)

lemma calculate_completeness_valid:
  "valid_query a \<Longrightarrow>
   calculate_completeness df a =
     Inr (if length (all_df df a) < 3 then None
          else Some (Fin (real (length (status_rows (mode a) (param_df df a))) /
                          real (length (all_df df a)))))"
  by (simp add: calculate_completeness_def completeness_run_valid)

subsection \<open>Runs on which an assertion fails\<close>

lemma reliability_run_head:
  "\<not> period_ok a \<Longrightarrow>
     calculate_reliability_run df a =
       ([], Inl (AssertionError ''The input rotation period must be between 0.2 and 20 days''))"
  "period_ok a \<Longrightarrow> \<not> aux_given a \<Longrightarrow>
     calculate_reliability_run df a = ([], Inl (AssertionError aux_message))"
  "period_ok a \<Longrightarrow> aux_given a \<Longrightarrow> \<not> mode_ok a \<Longrightarrow>
     calculate_reliability_run df a = ([], Inl (AssertionError mode_message))"
  by (simp_all add: calculate_reliability_run_def)

lemma completeness_run_head:
  "\<not> period_ok a \<Longrightarrow>
     calculate_completeness_run df a =
       ([], Inl (AssertionError ''The input rotation period must be between 0 and 20 days''))"
  "period_ok a \<Longrightarrow> \<not> aux_given a \<Longrightarrow>
     calculate_completeness_run df a = ([], Inl (AssertionError aux_message))"
  "period_ok a \<Longrightarrow> aux_given a \<Longrightarrow> \<not> mode_ok a \<Longrightarrow>
     calculate_completeness_run df a = ([], Inl (AssertionError mode_message))"
  by (simp_all add: calculate_completeness_run_def)

lemma reliability_run_ls_bad:
  assumes "period_ok a" "aux_given a" "mode_ok a" "\<not> ls_ok a"
  shows "calculate_reliability_run df a =
           ([Period], Inl (AssertionError ''Lomb-Scargle power must be between 0 and 1''))"
  unfolding calculate_reliability_run_def
  by (simp add: assms ls_block_bad then_run_Inl)

lemma completeness_run_ls_bad:
  assumes "period_ok a" "aux_given a" "mode_ok a" "\<not> ls_ok a"
  shows "calculate_completeness_run df a =
           ([Period], Inl (AssertionError ''Lomb-Scargle power must be between 0 and 1''))"
  unfolding calculate_completeness_run_def
  by (simp add: assms ls_block_bad then_run_Inl Let_def)

lemma reliability_run_snr_bad:
  assumes "period_ok a" "aux_given a" "mode_ok a" "ls_ok a" "\<not> snr_ok a"
  shows "calculate_reliability_run df a =
           ([Period] @ (if ls a = None then [] else [Power]) @
            (if t a = None then [] else [Magnitude]),
            Inl (AssertionError ''SNR must be greater than 0''))"
  unfolding calculate_reliability_run_def
  by (simp add: assms ls_block_ok t_block_ok snr_block_bad then_run_Inl then_run_Inr)

lemma completeness_run_snr_bad:
  assumes "period_ok a" "aux_given a" "mode_ok a" "ls_ok a" "\<not> snr_ok a"
  shows "calculate_completeness_run df a =
           ([Period] @ (if ls a = None then [] else [Power]) @
            (if t a = None then [] else [Magnitude]),
            Inl (AssertionError ''SNR must be greater than 0''))"
  unfolding calculate_completeness_run_def
  by (simp add: assms ls_block_ok t_block_ok snr_block_bad then_run_Inl then_run_Inr Let_def)

lemma reliability_failure:
  "(calculate_reliability df a = Inl e) =
     (if \<not> period_ok a
      then e = AssertionError ''The input rotation period must be between 0.2 and 20 days''
      else if \<not> aux_given a then e = AssertionError aux_message
      else if \<not> mode_ok a then e = AssertionError mode_message
      else if \<not> ls_ok a
      then e = AssertionError ''Lomb-Scargle power must be between 0 and 1''
      else if \<not> snr_ok a then e = AssertionError ''SNR must be greater than 0''
      else False)"
  using reliability_run_head [of a df] reliability_run_ls_bad [of a df]
    reliability_run_snr_bad [of a df] reliability_run_valid [of a df]
  by (auto simp: calculate_reliability_def valid_query_def)

lemma completeness_failure:
  "(calculate_completeness df a = Inl e) =
     (if \<not> period_ok a
      then e = AssertionError ''The input rotation period must be between 0 and 20 days''
      else if \<not> aux_given a then e = AssertionError aux_message
      else if \<not> mode_ok a then e = AssertionError mode_message
      else if \<not> ls_ok a
      then e = AssertionError ''Lomb-Scargle power must be between 0 and 1''
      else if \<not> snr_ok a then e = AssertionError ''SNR must be greater than 0''
      else False)"
  using completeness_run_head [of a df] completeness_run_ls_bad [of a df]
    completeness_run_snr_bad [of a df] completeness_run_valid [of a df]
  by (auto simp: calculate_completeness_def valid_query_def)

lemma same_but_limits_conditions:
  "same_but_limits a a' \<Longrightarrow>
   period_ok a' = period_ok a \<and> aux_given a' = aux_given a \<and> mode_ok a' = mode_ok a \<and>
   ls_ok a' = ls_ok a \<and> snr_ok a' = snr_ok a"
  by (simp add: same_but_limits_def period_ok_def aux_given_def mode_ok_def ls_ok_def
      snr_ok_def)

section \<open>The frames as windows\<close>

lemma period_mask_window: "period_mask a r = in_period_window a r"
  by (auto simp: in_period_window_def in_window_def period_mask_def)

lemma all_df_window: "all_df df a = filter (in_period_window a) df"
  by (simp add: all_df_def period_mask_window cong: filter_cong)

lemma param_df_window: "param_df df a = filter (in_aux_windows a) (all_df df a)"
  by (auto simp: param_df_def ls_rows_def t_rows_def snr_rows_def in_aux_windows_def
      in_window_def power_mask_def Tmag_mask_def snr_mask_def
      split: option.splits intro: filter_cong)

lemma param_df_box:
  "param_df df a = filter (\<lambda>r. in_period_window a r \<and> in_aux_windows a r) df"
  by (simp add: param_df_window all_df_window conj_commute)

lemma length_param_le_all: "length (param_df df a) \<le> length (all_df df a)"
  by (simp add: param_df_window)

lemma param_df_of_empty: "all_df df a = [] \<Longrightarrow> param_df df a = []"
  by (simp add: param_df_window)

lemma in_window_NaN: "in_window NaN c l u = False"
  by (simp add: in_window_def fl_gt_def)

lemma in_window_bounds:
  "\<not> in_window (fl_sub c l) c l u" "\<not> in_window (fl_add c u) c l u"
  by (simp_all add: in_window_def fl_gt_def fl_lt_irrefl)

lemma in_window_floats:
  "in_window v c l u =
     (lt_floats (fl_sub c l) (the_float v) \<and> lt_floats (the_float v) (fl_add c u))"
  by (simp add: in_window_def fl_gt_def fl_lt_def fl_sub_def the_float_fl_add)


lemma status_rows_Nil: "status_rows m [] = []"
  by (simp add: status_rows_def)

lemma status_rows_pred:
  "m \<in> set [''match'', ''alias'', ''recovery''] \<Longrightarrow>
   status_rows m d = filter (\<lambda>r. status_pred m (col_status r)) d"
  by (auto simp: status_rows_def status_pred_def)

subsection \<open>Widening and emptiness of a window\<close>

lemma upper_mono:
  "wider u u' \<Longrightarrow> fl_lt v (fl_add c u) \<Longrightarrow> fl_lt v (fl_add c u')"
  unfolding wider_def by (rule upper_bound_mono)

lemma lower_mono:
  "wider l l' \<Longrightarrow> fl_gt v (fl_sub c l) \<Longrightarrow> fl_gt v (fl_sub c l')"
  unfolding wider_def by (rule lower_bound_mono)

lemma in_window_mono:
  "wider l l' \<Longrightarrow> wider u u' \<Longrightarrow> in_window v c l u \<Longrightarrow> in_window v c l' u'"
  by (auto simp: in_window_def intro: upper_mono lower_mono)

lemma period_window_mono:
  "widened a a' \<Longrightarrow> in_period_window a r \<Longrightarrow> in_period_window a' r"
  by (auto simp: widened_def in_period_window_def intro: in_window_mono)

lemma aux_windows_mono:
  "widened a a' \<Longrightarrow> in_aux_windows a r \<Longrightarrow> in_aux_windows a' r"
  by (auto simp: widened_def in_aux_windows_def split: option.splits intro: in_window_mono)

lemma filter_narrow:
  "(\<And>x. P x \<Longrightarrow> Q x) \<Longrightarrow> filter P xs = filter P (filter Q xs)"
  by (induction xs) auto

lemma empty_window_excludes: "empty_window l u \<Longrightarrow> \<not> in_window v c l u"
  unfolding empty_window_def in_window_def by (rule window_empty)

lemma empty_period_window:
  "empty_window (period_lower_limit a) (period_upper_limit a) \<Longrightarrow> all_df df a = []"
  by (simp add: all_df_window in_period_window_def empty_window_excludes)

lemma empty_aux_window: "aux_window_empty a \<Longrightarrow> param_df df a = []"
  by (auto simp: param_df_window in_aux_windows_def aux_window_empty_def
      empty_window_excludes)

section \<open>The concrete catalogue, evaluated\<close>

lemma valid_sample: "valid_query sample_args"
  by (simp add: valid_query_def sample_args_def default_args_def float_eval period_ok_def aux_given_def
      mode_ok_def ls_ok_def snr_ok_def)

lemma valid_narrow: "valid_query narrow_args"
  by (simp add: valid_query_def narrow_args_def sample_args_def default_args_def float_eval period_ok_def
      aux_given_def mode_ok_def ls_ok_def snr_ok_def)

lemma valid_scenario:
  "m \<in> set [''match'', ''alias'', ''recovery''] \<Longrightarrow> valid_query (scenario_args m)"
  by (simp add: valid_query_def scenario_args_def default_args_def float_eval period_ok_def
      aux_given_def mode_ok_def ls_ok_def snr_ok_def)

lemma sample_all_df: "all_df sample_df sample_args = take 4 sample_df"
  by (simp add: all_df_window sample_df_def sample_args_def default_args_def
      in_period_window_def in_window_def float_eval)

lemma sample_param_df: "param_df sample_df sample_args = take 4 sample_df"
  by (simp add: param_df_window sample_all_df)
     (simp add: sample_df_def sample_args_def default_args_def in_aux_windows_def
      in_window_def float_eval)

lemma sample_lengths:
  "length (all_df sample_df sample_args) = 4"
  "length (param_df sample_df sample_args) = 4"
  "length (status_rows (mode sample_args) (param_df sample_df sample_args)) = 3"
  by (simp_all add: sample_all_df sample_param_df)
     (simp_all add: sample_df_def sample_args_def default_args_def status_rows_def)

lemma sample_tail_lengths:
  "length (param_df (tl sample_df) sample_args) = 3"
  "length (status_rows (mode sample_args) (param_df (tl sample_df) sample_args)) = 2"
  "length (param_df (tl (tl sample_df)) sample_args) = 2"
  "length (all_df (tl (tl sample_df)) sample_args) = 2"
  by (simp_all add: param_df_box all_df_window sample_df_def sample_args_def default_args_def
      in_period_window_def in_aux_windows_def in_window_def float_eval
      status_rows_def)

lemma narrow_lengths:
  "length (all_df sample_df narrow_args) = 4"
  "param_df sample_df narrow_args = []"
  by (simp_all add: param_df_box all_df_window sample_df_def narrow_args_def sample_args_def
      default_args_def in_period_window_def in_aux_windows_def in_window_def float_eval)

lemma valid_rounded: "valid_query rounded_up_args" "valid_query rounded_down_args"
  by (simp_all add: valid_query_def rounded_up_args_def rounded_down_args_def default_args_def
      float_eval period_ok_def aux_given_def mode_ok_def ls_ok_def snr_ok_def)

lemma inside_row_kept:
  "in_period_window rounded_up_args inside_row"
  "in_aux_windows rounded_up_args inside_row"
  by (simp_all add: in_period_window_def in_aux_windows_def in_window_def inside_row_def
      rounded_up_args_def default_args_def float_eval)

lemma bound_row_dropped:
  "\<not> in_period_window rounded_down_args bound_row"
  by (simp add: in_period_window_def in_window_def bound_row_def rounded_down_args_def
      default_args_def float_eval)

lemma tie_frames:
  "all_df (replicate 3 inside_row) rounded_up_args = replicate 3 inside_row"
  "param_df (replicate 3 inside_row) rounded_up_args = replicate 3 inside_row"
  "param_df (replicate 4 bound_row) rounded_down_args = []"
  by (simp_all add: all_df_window param_df_box inside_row_kept bound_row_dropped)

lemma mode_rounded: "mode rounded_up_args = ''match''" "mode rounded_down_args = ''match''"
  by (simp_all add: rounded_up_args_def rounded_down_args_def default_args_def)

lemma valid_status_rows:
  "valid_query a \<Longrightarrow>
   status_rows (mode a) d = filter (\<lambda>r. status_pred (mode a) (col_status r)) d"
  by (intro status_rows_pred) (simp add: valid_query_def mode_ok_def)

lemma spec_frames:
  "filter (in_period_window a) df = all_df df a"
  "filter (in_aux_windows a) (all_df df a) = param_df df a"
  "filter (\<lambda>r. in_period_window a r \<and> in_aux_windows a r) df = param_df df a"
  by (simp_all add: all_df_window [symmetric] param_df_window [symmetric]
      param_df_box [symmetric])

lemma sample_matched:
  "length (filter (\<lambda>r. status_pred (mode sample_args) (col_status r))
     (param_df sample_df sample_args)) = 3"
  "length (filter (\<lambda>r. status_pred (mode sample_args) (col_status r))
     (param_df (tl sample_df) sample_args)) = 2"
  using sample_lengths(3) sample_tail_lengths(2)
  by (simp_all add: valid_status_rows [OF valid_sample])

lemma tie_lengths:
  "length (all_df (replicate 3 inside_row) rounded_up_args) = 3"
  "length (param_df (replicate 3 inside_row) rounded_up_args) = 3"
  "length (filter (\<lambda>r. status_pred (mode rounded_up_args) (col_status r))
     (param_df (replicate 3 inside_row) rounded_up_args)) = 3"
  "length (param_df (replicate 4 bound_row) rounded_down_args) = 0"
  by (simp_all add: tie_frames)
     (simp add: status_pred_def mode_rounded inside_row_def)

lemma length5E:
  assumes "length xs = 5"
  obtains x1 x2 x3 x4 x5 where "xs = [x1, x2, x3, x4, x5]"
proof -
  from assms obtain x1 x2 x3 x4 x5 where "xs = [x1, x2, x3, x4, x5]"
    by (auto simp: length_Suc_conv eval_nat_numeral)
  then show ?thesis by (rule that)
qed

section \<open>The properties of the specification\<close>

subsection \<open>Completeness: the ratio and its denominator\<close>

text \<open>
  C1. On a valid query \<open>calculate_completeness\<close> selects the catalogue on the period axis
  alone to obtain \<open>all_df\<close>, the rows inside the period window; it returns \<open>None\<close> exactly
  when these are fewer than 3, and otherwise the number of rows that are inside the
  period window and the auxiliary windows and whose status satisfies the predicate of
  the mode, divided by the number of rows inside the period window, not by the number
  inside all windows.
\<close>

theorem completeness_ratio:
  assumes "valid_query a"
  shows "all_df df a = filter (in_period_window a) df \<and>
         param_df df a = filter (in_aux_windows a) (all_df df a) \<and>
         (calculate_completeness df a = Inr None) =
           (length (filter (in_period_window a) df) < 3) \<and>
         calculate_completeness df a =
           Inr (if length (filter (in_period_window a) df) < 3 then None
                else Some (Fin (real (length (filter (\<lambda>r. status_pred (mode a) (col_status r))
                                        (filter (in_aux_windows a)
                                          (filter (in_period_window a) df)))) /
                                real (length (filter (in_period_window a) df)))))"
  by (simp add: calculate_completeness_valid [OF assms] valid_status_rows [OF assms]
      all_df_window param_df_window)

theorem completeness_ratio_witness:
  "valid_query sample_args \<and>
   calculate_completeness sample_df sample_args = Inr (Some (Fin 0.75)) \<and>
   valid_query narrow_args \<and>
   length (all_df sample_df narrow_args) = 4 \<and>
   param_df sample_df narrow_args = [] \<and>
   calculate_completeness sample_df narrow_args = Inr (Some (Fin 0)) \<and>
   valid_query rounded_up_args \<and>
   calculate_completeness (replicate 3 inside_row) rounded_up_args = Inr (Some (Fin 1))"
proof -
  note c = conjunct2 [OF conjunct2 [OF conjunct2]]
  from completeness_ratio [OF valid_sample, of sample_df, THEN c]
  have 1: "calculate_completeness sample_df sample_args = Inr (Some (Fin 0.75))"
    by (simp add: spec_frames sample_lengths sample_matched)
  from completeness_ratio [OF valid_narrow, of sample_df, THEN c]
  have 2: "calculate_completeness sample_df narrow_args = Inr (Some (Fin 0))"
    by (simp add: spec_frames narrow_lengths)
  from completeness_ratio [OF valid_rounded(1), of "replicate 3 inside_row", THEN c]
  have 3: "calculate_completeness (replicate 3 inside_row) rounded_up_args =
      Inr (Some (Fin 1))"
    by (simp add: spec_frames tie_lengths)
  from 1 2 3 show ?thesis
    by (simp add: valid_sample valid_narrow valid_rounded narrow_lengths)
qed

subsection \<open>Reliability: the ratio and the floor of three rows\<close>

text \<open>
  C2. On a valid query \<open>calculate_reliability\<close> selects the catalogue on the period axis
  and on every supplied auxiliary axis to obtain \<open>param_df\<close>, the rows inside all these
  windows; it returns \<open>None\<close> exactly when these are fewer than 3, and otherwise the
  number of them whose status satisfies the predicate of the mode, divided by their
  number. The evaluation that follows has a box of 4 rows, one of exactly 3 rows (a
  ratio), one of exactly 2 rows (\<open>None\<close>), and rows on a rounded bound.
\<close>

theorem reliability_ratio:
  assumes "valid_query a"
  shows "param_df df a = filter (\<lambda>r. in_period_window a r \<and> in_aux_windows a r) df \<and>
         (calculate_reliability df a = Inr None) =
           (length (filter (\<lambda>r. in_period_window a r \<and> in_aux_windows a r) df) < 3) \<and>
         calculate_reliability df a =
           Inr (if length (filter (\<lambda>r. in_period_window a r \<and> in_aux_windows a r) df) < 3
                then None
                else Some (Fin (real (length (filter (\<lambda>r. status_pred (mode a) (col_status r))
                                        (filter (\<lambda>r. in_period_window a r \<and>
                                                     in_aux_windows a r) df))) /
                                real (length (filter (\<lambda>r. in_period_window a r \<and>
                                                          in_aux_windows a r) df)))))"
  by (simp add: calculate_reliability_valid [OF assms] valid_status_rows [OF assms]
      param_df_box)

theorem reliability_ratio_witness:
  "valid_query sample_args \<and>
   calculate_reliability sample_df sample_args = Inr (Some (Fin 0.75)) \<and>
   length (param_df (tl sample_df) sample_args) = 3 \<and>
   calculate_reliability (tl sample_df) sample_args = Inr (Some (Fin (2 / 3))) \<and>
   length (param_df (tl (tl sample_df)) sample_args) = 2 \<and>
   calculate_reliability (tl (tl sample_df)) sample_args = Inr None \<and>
   valid_query rounded_up_args \<and>
   calculate_reliability (replicate 3 inside_row) rounded_up_args = Inr (Some (Fin 1)) \<and>
   valid_query rounded_down_args \<and>
   calculate_reliability (replicate 4 bound_row) rounded_down_args = Inr None"
proof -
  note c = conjunct2 [OF conjunct2]
  from reliability_ratio [OF valid_sample, of sample_df, THEN c]
  have 1: "calculate_reliability sample_df sample_args = Inr (Some (Fin 0.75))"
    by (simp add: spec_frames sample_lengths sample_matched)
  from reliability_ratio [OF valid_sample, of "tl sample_df", THEN c]
  have 2: "calculate_reliability (tl sample_df) sample_args = Inr (Some (Fin (2 / 3)))"
    by (simp add: spec_frames sample_tail_lengths sample_matched)
  from reliability_ratio [OF valid_sample, of "tl (tl sample_df)", THEN c]
  have 3: "calculate_reliability (tl (tl sample_df)) sample_args = Inr None"
    by (simp add: spec_frames sample_tail_lengths)
  from reliability_ratio [OF valid_rounded(1), of "replicate 3 inside_row", THEN c]
  have 4: "calculate_reliability (replicate 3 inside_row) rounded_up_args =
      Inr (Some (Fin 1))"
    by (simp add: spec_frames tie_lengths)
  from reliability_ratio [OF valid_rounded(2), of "replicate 4 bound_row", THEN c]
  have 5: "calculate_reliability (replicate 4 bound_row) rounded_down_args = Inr None"
    by (simp add: spec_frames tie_lengths)
  from 1 2 3 4 5 show ?thesis
    by (simp add: valid_sample valid_rounded sample_tail_lengths)
qed

subsection \<open>The order of the assertions and the selections\<close>

text \<open>
  C3, as the specification states it: every validation failure is raised before any
  selection on the catalogue has been executed. The code does otherwise for two of the
  five: a power outside (0, 1) is rejected after the selection on the period, a
  non-positive signal-to-noise ratio after the selections on the period and on the
  supplied power.
\<close>

theorem validation_after_filtering:
  "calculate_reliability_run sample_df (sample_args\<lparr>ls := Some (Fin 1.5)\<rparr>) =
     ([Period], Inl (AssertionError ''Lomb-Scargle power must be between 0 and 1'')) \<and>
   calculate_completeness_run sample_df (sample_args\<lparr>snr := Some (Fin (- 1))\<rparr>) =
     ([Period, Power], Inl (AssertionError ''SNR must be greater than 0''))"
  by (simp add: calculate_reliability_run_def calculate_completeness_run_def sample_args_def
      default_args_def period_ok_def aux_given_def mode_ok_def ls_block_def t_block_def
      snr_block_def then_run_def float_eval Let_def)

text \<open>
  C3, amended. In both estimators the assertions on the period, on the presence of an
  auxiliary value and on the mode fail, in this order, before any selection has been
  executed. The assertion on the power fails after the selection on the period and
  before the one on the power; the assertion on the signal-to-noise ratio fails after
  the selections on the period and on the supplied power and magnitude, before the one on
  the signal-to-noise ratio. Each failure is an AssertionError whose message names the
  offending argument. A valid query executes the selections of its supplied axes and
  raises nothing.
\<close>

theorem assertion_order:
  "(\<not> period_ok a \<longrightarrow>
      calculate_reliability_run df a =
        ([], Inl (AssertionError
                ''The input rotation period must be between 0.2 and 20 days'')) \<and>
      calculate_completeness_run df a =
        ([], Inl (AssertionError
                ''The input rotation period must be between 0 and 20 days''))) \<and>
   (period_ok a \<and> \<not> aux_given a \<longrightarrow>
      calculate_reliability_run df a = ([], Inl (AssertionError aux_message)) \<and>
      calculate_completeness_run df a = ([], Inl (AssertionError aux_message))) \<and>
   (period_ok a \<and> aux_given a \<and> \<not> mode_ok a \<longrightarrow>
      calculate_reliability_run df a = ([], Inl (AssertionError mode_message)) \<and>
      calculate_completeness_run df a = ([], Inl (AssertionError mode_message))) \<and>
   (period_ok a \<and> aux_given a \<and> mode_ok a \<and> \<not> ls_ok a \<longrightarrow>
      calculate_reliability_run df a =
        ([Period], Inl (AssertionError ''Lomb-Scargle power must be between 0 and 1'')) \<and>
      calculate_completeness_run df a =
        ([Period], Inl (AssertionError ''Lomb-Scargle power must be between 0 and 1''))) \<and>
   (period_ok a \<and> aux_given a \<and> mode_ok a \<and> ls_ok a \<and> \<not> snr_ok a \<longrightarrow>
      calculate_reliability_run df a =
        ([Period] @ (if ls a = None then [] else [Power]) @
         (if t a = None then [] else [Magnitude]),
         Inl (AssertionError ''SNR must be greater than 0'')) \<and>
      calculate_completeness_run df a =
        ([Period] @ (if ls a = None then [] else [Power]) @
         (if t a = None then [] else [Magnitude]),
         Inl (AssertionError ''SNR must be greater than 0''))) \<and>
   (valid_query a \<longrightarrow>
      fst (calculate_reliability_run df a) = selections a \<and>
      fst (calculate_completeness_run df a) = selections a \<and>
      (\<exists>x. calculate_reliability df a = Inr x) \<and>
      (\<exists>x. calculate_completeness df a = Inr x))"
  using reliability_run_head [of a df] completeness_run_head [of a df]
    reliability_run_ls_bad [of a df] completeness_run_ls_bad [of a df]
    reliability_run_snr_bad [of a df] completeness_run_snr_bad [of a df]
  by (simp add: reliability_run_valid completeness_run_valid calculate_reliability_def
      calculate_completeness_def)

theorem assertion_order_witness:
  "\<not> period_ok (sample_args\<lparr>input_period := Fin 0.1\<rparr>) \<and>
   calculate_reliability_run sample_df (sample_args\<lparr>input_period := Fin 0.1\<rparr>) =
     ([], Inl (AssertionError ''The input rotation period must be between 0.2 and 20 days'')) \<and>
   \<not> aux_given (default_args (Fin 9)) \<and>
   calculate_reliability_run sample_df (default_args (Fin 9)) =
     ([], Inl (AssertionError aux_message)) \<and>
   \<not> mode_ok (sample_args\<lparr>mode := ''best''\<rparr>) \<and>
   calculate_completeness_run sample_df (sample_args\<lparr>mode := ''best''\<rparr>) =
     ([], Inl (AssertionError mode_message)) \<and>
   \<not> ls_ok (sample_args\<lparr>ls := Some (Fin 1)\<rparr>) \<and>
   calculate_completeness_run sample_df (sample_args\<lparr>ls := Some (Fin 1)\<rparr>) =
     ([Period], Inl (AssertionError ''Lomb-Scargle power must be between 0 and 1'')) \<and>
   \<not> snr_ok (sample_args\<lparr>t := Some (Fin 10), snr := Some (Fin 0)\<rparr>) \<and>
   calculate_reliability_run sample_df (sample_args\<lparr>t := Some (Fin 10), snr := Some (Fin 0)\<rparr>) =
     ([Period, Power, Magnitude], Inl (AssertionError ''SNR must be greater than 0'')) \<and>
   valid_query sample_args \<and>
   fst (calculate_reliability_run sample_df sample_args) = [Period, Power]"
  using assertion_order [of "sample_args\<lparr>input_period := Fin 0.1\<rparr>" sample_df]
    assertion_order [of "default_args (Fin 9)" sample_df]
    assertion_order [of "sample_args\<lparr>mode := ''best''\<rparr>" sample_df]
    assertion_order [of "sample_args\<lparr>ls := Some (Fin 1)\<rparr>" sample_df]
    assertion_order [of "sample_args\<lparr>t := Some (Fin 10), snr := Some (Fin 0)\<rparr>" sample_df]
    assertion_order [of sample_args sample_df]
  by (simp add: valid_sample selections_def)
     (simp add: sample_args_def default_args_def period_ok_def aux_given_def mode_ok_def
      ls_ok_def snr_ok_def float_eval)

subsection \<open>Strict windows and missing values\<close>

text \<open>
  C4. On every axis both estimators keep a row exactly when its value is strictly above
  the float \<open>center - lower\<close> and strictly below the float \<open>center + upper\<close>: \<open>all_df\<close>
  holds the rows of the catalogue inside the period window, \<open>param_df\<close> those inside the
  period window and the window of every supplied auxiliary axis, and these are the frames
  the two results are computed from. A value equal to either bound is outside, and a row
  whose value on a selected axis is NaN is dropped.
\<close>

theorem strict_open_windows:
  assumes "valid_query a"
  shows "(r \<in> set (all_df df a)) = (r \<in> set df \<and> in_period_window a r) \<and>
   (r \<in> set (param_df df a)) =
     (r \<in> set df \<and> in_period_window a r \<and> in_aux_windows a r) \<and>
   in_window v c l u = (fl_gt v (fl_sub c l) \<and> fl_lt v (fl_add c u)) \<and>
   in_window v c l u =
     (lt_floats (fl_sub c l) (the_float v) \<and> lt_floats (the_float v) (fl_add c u)) \<and>
   \<not> in_window (fl_sub c l) c l u \<and>
   \<not> in_window (fl_add c u) c l u \<and>
   \<not> in_window NaN c l u \<and>
   \<not> in_period_window a (r\<lparr>col_prot_rh20 := NaN\<rparr>) \<and>
   \<not> in_aux_windows (a\<lparr>ls := Some v\<rparr>) (r\<lparr>col_power := NaN\<rparr>) \<and>
   \<not> in_aux_windows (a\<lparr>t := Some v\<rparr>) (r\<lparr>col_Tmag := NaN\<rparr>) \<and>
   \<not> in_aux_windows (a\<lparr>snr := Some v\<rparr>) (r\<lparr>col_snr := NaN\<rparr>) \<and>
   calculate_reliability df a =
     Inr (if length (param_df df a) < 3 then None
          else Some (Fin (real (length (filter (\<lambda>r. status_pred (mode a) (col_status r))
                                  (param_df df a))) /
                          real (length (param_df df a))))) \<and>
   calculate_completeness df a =
     Inr (if length (all_df df a) < 3 then None
          else Some (Fin (real (length (filter (\<lambda>r. status_pred (mode a) (col_status r))
                                  (param_df df a))) /
                          real (length (all_df df a)))))"
proof -
  have m: "(r \<in> set (all_df df a)) = (r \<in> set df \<and> in_period_window a r)"
    "(r \<in> set (param_df df a)) = (r \<in> set df \<and> in_period_window a r \<and> in_aux_windows a r)"
    by (auto simp: all_df_window param_df_box)
  have n: "\<not> in_period_window a (r\<lparr>col_prot_rh20 := NaN\<rparr>)"
    "\<not> in_aux_windows (a\<lparr>ls := Some v\<rparr>) (r\<lparr>col_power := NaN\<rparr>)"
    "\<not> in_aux_windows (a\<lparr>t := Some v\<rparr>) (r\<lparr>col_Tmag := NaN\<rparr>)"
    "\<not> in_aux_windows (a\<lparr>snr := Some v\<rparr>) (r\<lparr>col_snr := NaN\<rparr>)"
    by (simp_all add: in_period_window_def in_aux_windows_def in_window_NaN)
  have w: "in_window v c l u = (fl_gt v (fl_sub c l) \<and> fl_lt v (fl_add c u))"
    by (simp add: in_window_def)
  have b: "\<not> in_window (fl_sub c l) c l u" "\<not> in_window (fl_add c u) c l u"
    "\<not> in_window NaN c l u"
    by (simp_all add: in_window_bounds in_window_NaN)
  have e: "calculate_reliability df a =
      Inr (if length (param_df df a) < 3 then None
           else Some (Fin (real (length (filter (\<lambda>r. status_pred (mode a) (col_status r))
                                   (param_df df a))) /
                           real (length (param_df df a)))))"
    "calculate_completeness df a =
      Inr (if length (all_df df a) < 3 then None
           else Some (Fin (real (length (filter (\<lambda>r. status_pred (mode a) (col_status r))
                                   (param_df df a))) /
                           real (length (all_df df a)))))"
    by (simp_all add: calculate_reliability_valid [OF assms]
        calculate_completeness_valid [OF assms] valid_status_rows [OF assms])
  note f = in_window_floats [of v c l u]
  show ?thesis
    by (intro conjI) (fact m n w f b e)+
qed

theorem strict_open_windows_witness:
  "valid_query sample_args \<and>
   (sample_df ! 0 \<in> set (param_df sample_df sample_args)) \<and>
   (sample_df ! 4 \<notin> set (all_df sample_df sample_args)) \<and>
   \<not> in_window (Fin 8) (Fin 9) (Fin 1) (Fin 1) \<and>
   \<not> in_window (Fin 10) (Fin 9) (Fin 1) (Fin 1) \<and>
   in_window (Fin 0.15) (Fin 0.1) (Fin 0.05) (Fin 0.05) \<and>
   in_window (Fin 3.3) (Fin 1.1) (Fin 1) (Fin 2.2) \<and>
   \<not> in_window (Fin 0.7999999999999999) (Fin 0.7) (Fin 1) (Fin 0.1) \<and>
   in_window (Fin 0.2) (Fin 1.2) (Fin 1) (Fin 1)"
proof -
  have a: "sample_df ! 0 \<in> set sample_df \<and> in_period_window sample_args (sample_df ! 0) \<and>
      in_aux_windows sample_args (sample_df ! 0)"
    by (simp add: sample_df_def sample_args_def default_args_def in_period_window_def
        in_aux_windows_def in_window_def float_eval)
  have b: "\<not> in_period_window sample_args (sample_df ! 4)"
    by (simp add: sample_df_def sample_args_def default_args_def in_period_window_def
        in_window_def float_eval)
  note inst = strict_open_windows [OF valid_sample]
  from inst [where r = "sample_df ! 0" and df = sample_df] a
  have 1: "sample_df ! 0 \<in> set (param_df sample_df sample_args)" by blast
  from inst [where r = "sample_df ! 4" and df = sample_df] b
  have 2: "sample_df ! 4 \<notin> set (all_df sample_df sample_args)" by blast
  from inst [where v = "Fin 8" and c = "Fin 9" and l = "Fin 1" and u = "Fin 1"]
  have 3: "in_window (Fin 8) (Fin 9) (Fin 1) (Fin 1) =
      (fl_gt (Fin 8) (fl_sub (Fin 9) (Fin 1)) \<and> fl_lt (Fin 8) (fl_add (Fin 9) (Fin 1)))"
    by blast
  from inst [where v = "Fin 10" and c = "Fin 9" and l = "Fin 1" and u = "Fin 1"]
  have 4: "in_window (Fin 10) (Fin 9) (Fin 1) (Fin 1) =
      (fl_gt (Fin 10) (fl_sub (Fin 9) (Fin 1)) \<and> fl_lt (Fin 10) (fl_add (Fin 9) (Fin 1)))"
    by blast
  from inst [where v = "Fin 0.15" and c = "Fin 0.1" and l = "Fin 0.05" and u = "Fin 0.05"]
  have 5: "in_window (Fin 0.15) (Fin 0.1) (Fin 0.05) (Fin 0.05) =
      (fl_gt (Fin 0.15) (fl_sub (Fin 0.1) (Fin 0.05)) \<and>
       fl_lt (Fin 0.15) (fl_add (Fin 0.1) (Fin 0.05)))"
    by blast
  from inst [where v = "Fin 3.3" and c = "Fin 1.1" and l = "Fin 1" and u = "Fin 2.2"]
  have 6: "in_window (Fin 3.3) (Fin 1.1) (Fin 1) (Fin 2.2) =
      (fl_gt (Fin 3.3) (fl_sub (Fin 1.1) (Fin 1)) \<and>
       fl_lt (Fin 3.3) (fl_add (Fin 1.1) (Fin 2.2)))"
    by blast
  from inst [where v = "Fin 0.7999999999999999" and c = "Fin 0.7" and l = "Fin 1"
      and u = "Fin 0.1"]
  have 7: "in_window (Fin 0.7999999999999999) (Fin 0.7) (Fin 1) (Fin 0.1) =
      (fl_gt (Fin 0.7999999999999999) (fl_sub (Fin 0.7) (Fin 1)) \<and>
       fl_lt (Fin 0.7999999999999999) (fl_add (Fin 0.7) (Fin 0.1)))"
    by blast
  from inst [where v = "Fin 0.2" and c = "Fin 1.2" and l = "Fin 1" and u = "Fin 1"]
  have 8: "in_window (Fin 0.2) (Fin 1.2) (Fin 1) (Fin 1) =
      (fl_gt (Fin 0.2) (fl_sub (Fin 1.2) (Fin 1)) \<and> fl_lt (Fin 0.2) (fl_add (Fin 1.2) (Fin 1)))"
    by blast
  have w3: "\<not> in_window (Fin 8) (Fin 9) (Fin 1) (Fin 1)"
    unfolding 3 by (simp add: float_eval)
  have w4: "\<not> in_window (Fin 10) (Fin 9) (Fin 1) (Fin 1)"
    unfolding 4 by (simp add: float_eval)
  have w5: "in_window (Fin 0.15) (Fin 0.1) (Fin 0.05) (Fin 0.05)"
    unfolding 5 by (simp add: float_eval)
  have w6: "in_window (Fin 3.3) (Fin 1.1) (Fin 1) (Fin 2.2)"
    unfolding 6 by (simp add: float_eval)
  have w7: "\<not> in_window (Fin 0.7999999999999999) (Fin 0.7) (Fin 1) (Fin 0.1)"
    unfolding 7 by (simp add: float_eval)
  have w8: "in_window (Fin 0.2) (Fin 1.2) (Fin 1) (Fin 1)"
    unfolding 8 by (simp add: float_eval)
  from valid_sample 1 2 w3 w4 w5 w6 w7 w8 show ?thesis by blast
qed

subsection \<open>The status classification\<close>

text \<open>
  C5. For each of the three modes the rows selected from a frame are those whose status
  satisfies the mode's predicate: equal to \<open>match\<close>, equal to \<open>alias\<close>, or different from
  \<open>not_recovered\<close> (so that any other label counts as recovered). The predicate reads
  the mode and the status of the row only, and both results are computed with it.
\<close>

theorem status_classification:
  assumes "m \<in> set [''match'', ''alias'', ''recovery'']"
  shows "status_rows m d = filter (\<lambda>r. status_pred m (col_status r)) d \<and>
         status_pred ''match'' s = (s = ''match'') \<and>
         status_pred ''alias'' s = (s = ''alias'') \<and>
         status_pred ''recovery'' s = (s \<noteq> ''not_recovered'') \<and>
         (valid_query a \<longrightarrow>
            calculate_reliability df a =
              Inr (if length (param_df df a) < 3 then None
                   else Some (Fin (real (length (filter (\<lambda>r. status_pred (mode a) (col_status r))
                                                    (param_df df a))) /
                                   real (length (param_df df a))))) \<and>
            calculate_completeness df a =
              Inr (if length (all_df df a) < 3 then None
                   else Some (Fin (real (length (filter (\<lambda>r. status_pred (mode a) (col_status r))
                                                    (param_df df a))) /
                                   real (length (all_df df a))))))"
proof -
  have 1: "status_rows m d = filter (\<lambda>r. status_pred m (col_status r)) d"
    using assms by (rule status_rows_pred)
  have 2: "status_pred ''match'' s = (s = ''match'')"
    "status_pred ''alias'' s = (s = ''alias'')"
    "status_pred ''recovery'' s = (s \<noteq> ''not_recovered'')"
    by (simp_all add: status_pred_def)
  have 3: "status_rows (mode a) (param_df df a) =
      filter (\<lambda>r. status_pred (mode a) (col_status r)) (param_df df a)" if "valid_query a"
    using that by (intro status_rows_pred) (simp add: valid_query_def mode_ok_def)
  show ?thesis
    using 1 2 3
    by (simp add: calculate_reliability_valid calculate_completeness_valid)
qed

theorem status_classification_witness:
  "''recovery'' \<in> set [''match'', ''alias'', ''recovery''] \<and>
   status_rows ''recovery'' sample_df =
     [sample_df ! 0, sample_df ! 2, sample_df ! 3, sample_df ! 4] \<and>
   status_rows ''alias'' sample_df = [] \<and>
   valid_query sample_args \<and>
   calculate_reliability sample_df sample_args = Inr (Some (Fin 0.75))"
proof -
  have v: "calculate_reliability sample_df sample_args = Inr (Some (Fin 0.75))"
    using status_classification [of "''match''" "[]" _ sample_args sample_df]
      sample_lengths valid_sample
    by (simp add: status_rows_pred valid_query_def mode_ok_def)
  show ?thesis
    using status_classification [of "''recovery''" sample_df]
      status_classification [of "''alias''" sample_df]
    by (simp add: v valid_sample) (simp add: sample_df_def status_pred_def)
qed

subsection \<open>The range of the result\<close>



subsection \<open>Widening a window\<close>

text \<open>
  C7. When limits of a query are increased and nothing else changes, the rows selected
  before are still selected: the period-only frame and the fully selected frame of the
  narrower query are selections of those of the wider query, so the denominator of each
  estimator does not decrease, and a result that was a ratio does not become \<open>None\<close>.
\<close>

theorem widening_monotone:
  assumes "widened a a'"
  shows "all_df df a = filter (in_period_window a) (all_df df a') \<and>
         set (all_df df a) \<subseteq> set (all_df df a') \<and>
         length (all_df df a) \<le> length (all_df df a') \<and>
         param_df df a =
           filter (\<lambda>r. in_period_window a r \<and> in_aux_windows a r) (param_df df a') \<and>
         set (param_df df a) \<subseteq> set (param_df df a') \<and>
         length (param_df df a) \<le> length (param_df df a') \<and>
         valid_query a' = valid_query a \<and>
         (valid_query a \<and> calculate_reliability df a' = Inr None \<longrightarrow>
            calculate_reliability df a = Inr None) \<and>
         (valid_query a \<and> calculate_completeness df a' = Inr None \<longrightarrow>
            calculate_completeness df a = Inr None)"
proof -
  have 1: "all_df df a = filter (in_period_window a) (all_df df a')"
    unfolding all_df_window
    by (rule filter_narrow) (rule period_window_mono [OF assms])
  have 2: "param_df df a =
      filter (\<lambda>r. in_period_window a r \<and> in_aux_windows a r) (param_df df a')"
    unfolding param_df_box
    by (rule filter_narrow) (simp add: period_window_mono [OF assms] aux_windows_mono [OF assms])
  have 3: "set (all_df df a) \<subseteq> set (all_df df a')"
    "length (all_df df a) \<le> length (all_df df a')"
    by (subst 1, simp)+
  have 4: "set (param_df df a) \<subseteq> set (param_df df a')"
    "length (param_df df a) \<le> length (param_df df a')"
    by (subst 2, simp)+
  have 5: "valid_query a' = valid_query a"
    using assms
    by (simp add: widened_def valid_query_def period_ok_def aux_given_def mode_ok_def
        ls_ok_def snr_ok_def)
  have 6: "calculate_reliability df a = Inr None"
    if "valid_query a" "calculate_reliability df a' = Inr None"
    using that 4(2) 5 by (simp add: calculate_reliability_valid split: if_splits)
  have 7: "calculate_completeness df a = Inr None"
    if "valid_query a" "calculate_completeness df a' = Inr None"
    using that 3(2) 5 by (simp add: calculate_completeness_valid split: if_splits)
  from 1 2 3 4 5 6 7 show ?thesis by blast
qed

theorem widening_monotone_witness:
  "widened sample_args wide_args \<and>
   length (all_df sample_df sample_args) = 4 \<and>
   length (all_df sample_df wide_args) = 5 \<and>
   4 \<le> length (param_df sample_df wide_args) \<and>
   widened (sample_args\<lparr>period_lower_limit := Fin 0, period_upper_limit := Fin 0.5\<rparr>)
     sample_args \<and>
   calculate_reliability (tl (tl sample_df)) sample_args = Inr None \<and>
   calculate_reliability (tl (tl sample_df))
     (sample_args\<lparr>period_lower_limit := Fin 0, period_upper_limit := Fin 0.5\<rparr>) = Inr None"
proof -
  let ?n = "sample_args\<lparr>period_lower_limit := Fin 0, period_upper_limit := Fin 0.5\<rparr>"
  let ?d = "tl (tl sample_df)"
  have w: "widened sample_args wide_args"
    by (simp add: widened_def wider_def wide_args_def sample_args_def default_args_def float_eval)
  have l: "length (all_df sample_df wide_args) = 5"
    by (simp add: all_df_window wide_args_def sample_df_def sample_args_def default_args_def
        in_period_window_def in_window_def float_eval)
  have n: "widened ?n sample_args"
    by (simp add: widened_def wider_def sample_args_def default_args_def float_eval)
  have vn: "valid_query ?n"
    by (simp add: valid_query_def sample_args_def default_args_def float_eval period_ok_def aux_given_def
        mode_ok_def ls_ok_def snr_ok_def)
  have r: "calculate_reliability ?d sample_args = Inr None"
    by (simp add: calculate_reliability_valid valid_sample sample_tail_lengths)
  from widening_monotone [OF w, of sample_df]
  have a: "length (param_df sample_df sample_args) \<le> length (param_df sample_df wide_args)"
    by blast
  from widening_monotone [OF n, of ?d] vn r
  have "calculate_reliability ?d ?n = Inr None"
    by blast
  with a r w n show ?thesis
    by (simp add: l sample_lengths)
qed

subsection \<open>The scenario of the specification\<close>

text \<open>
  C8. A catalogue of five rows with the periods 8.5, 9.0, 9.4, 9.6 and 15, every status
  \<open>match\<close> but one \<open>not_recovered\<close> among the first four, and powers that put the first
  four rows inside the power window; the query has the period 9 and the power 0.1 with the
  window (0.05, 0.05). The box has 4 rows, and the reliability is 0.75 for \<open>match\<close>, 0.75
  for \<open>recovery\<close> and 0.0 for \<open>alias\<close>.
\<close>

theorem scenario_reliability:
  assumes periods: "map col_prot_rh20 df = [Fin 8.5, Fin 9, Fin 9.4, Fin 9.6, Fin 15]"
    and k: "k < 4"
    and statuses: "map col_status df = (replicate 5 ''match'')[k := ''not_recovered'']"
    and powers:
      "\<forall>r \<in> set (take 4 df). in_window (col_power r) (Fin 0.1) (Fin 0.05) (Fin 0.05)"
  shows "length (param_df df (scenario_args ''match'')) = 4 \<and>
         calculate_reliability df (scenario_args ''match'') = Inr (Some (Fin 0.75)) \<and>
         calculate_reliability df (scenario_args ''recovery'') = Inr (Some (Fin 0.75)) \<and>
         calculate_reliability df (scenario_args ''alias'') = Inr (Some (Fin 0))"
proof -
  from periods have "length (map col_prot_rh20 df) = 5" by simp
  then have "length df = 5" by simp
  then obtain r1 r2 r3 r4 r5 where df: "df = [r1, r2, r3, r4, r5]"
    by (rule length5E)
  have box: "param_df df (scenario_args m) = [r1, r2, r3, r4]" for m
    using periods powers
    by (simp add: df param_df_box scenario_args_def default_args_def in_period_window_def
        in_aux_windows_def in_window_def float_eval)
  from k have "k = 0 \<or> k = 1 \<or> k = 2 \<or> k = 3" by arith
  then have st: "length (status_rows ''match'' [r1, r2, r3, r4]) = 3 \<and>
      length (status_rows ''recovery'' [r1, r2, r3, r4]) = 3 \<and>
      length (status_rows ''alias'' [r1, r2, r3, r4]) = 0"
    using statuses by (auto simp: df status_rows_def eval_nat_numeral)
  show ?thesis
    using st
    by (simp add: calculate_reliability_valid valid_scenario box)
       (simp add: scenario_args_def)
qed

theorem scenario_reliability_witness:
  "map col_prot_rh20 sample_df = [Fin 8.5, Fin 9, Fin 9.4, Fin 9.6, Fin 15] \<and>
   map col_status sample_df = (replicate 5 ''match'')[1 := ''not_recovered''] \<and>
   list_all (\<lambda>r. in_window (col_power r) (Fin 0.1) (Fin 0.05) (Fin 0.05))
     (take 4 sample_df) \<and>
   calculate_reliability sample_df (scenario_args ''match'') = Inr (Some (Fin 0.75)) \<and>
   calculate_reliability sample_df (scenario_args ''recovery'') = Inr (Some (Fin 0.75)) \<and>
   calculate_reliability sample_df (scenario_args ''alias'') = Inr (Some (Fin 0))"
proof -
  have p: "map col_prot_rh20 sample_df = [Fin 8.5, Fin 9, Fin 9.4, Fin 9.6, Fin 15]"
    by (simp add: sample_df_def)
  have s: "map col_status sample_df = (replicate 5 ''match'')[1 := ''not_recovered'']"
    by (simp add: sample_df_def eval_nat_numeral)
  have w: "\<forall>r \<in> set (take 4 sample_df).
      in_window (col_power r) (Fin 0.1) (Fin 0.05) (Fin 0.05)"
    by (simp add: sample_df_def in_window_def float_eval)
  have k: "(1::nat) < 4" by simp
  from w have "list_all (\<lambda>r. in_window (col_power r) (Fin 0.1) (Fin 0.05) (Fin 0.05))
      (take 4 sample_df)"
    by (simp only: list_all_iff)
  with scenario_reliability [OF p k s w] p s show ?thesis by simp
qed

subsection \<open>The box of reliability inside the box of completeness\<close>

text \<open>
  C9. On a valid query the frame \<open>calculate_reliability\<close> divides by is a selection of the
  period-only frame \<open>calculate_completeness\<close> divides by. So whenever completeness is
  \<open>None\<close>, reliability on the same catalogue and arguments is \<open>None\<close> too. The converse
  fails: with the power window (0, 0) the concrete catalogue has reliability \<open>None\<close> and
  completeness 0.
\<close>

theorem reliability_box_inside_period_box:
  assumes "valid_query a"
  shows "param_df df a = filter (in_aux_windows a) (all_df df a) \<and>
         set (param_df df a) \<subseteq> set (all_df df a) \<and>
         length (param_df df a) \<le> length (all_df df a) \<and>
         (calculate_completeness df a = Inr None \<longrightarrow> calculate_reliability df a = Inr None) \<and>
         valid_query narrow_args \<and>
         calculate_reliability sample_df narrow_args = Inr None \<and>
         calculate_completeness sample_df narrow_args = Inr (Some (Fin 0))"
proof -
  have 1: "param_df df a = filter (in_aux_windows a) (all_df df a)"
    by (rule param_df_window)
  have 2: "set (param_df df a) \<subseteq> set (all_df df a)"
    by (subst 1) simp
  have 3: "length (param_df df a) \<le> length (all_df df a)"
    by (rule length_param_le_all)
  have 4: "calculate_completeness df a = Inr None \<longrightarrow> calculate_reliability df a = Inr None"
    using 3 by (simp add: calculate_reliability_valid [OF assms]
        calculate_completeness_valid [OF assms])
  have 5: "calculate_reliability sample_df narrow_args = Inr None"
    "calculate_completeness sample_df narrow_args = Inr (Some (Fin 0))"
    by (simp_all add: calculate_reliability_valid calculate_completeness_valid valid_narrow
        narrow_lengths status_rows_def)
  from 1 2 3 4 5 valid_narrow show ?thesis by blast
qed

theorem reliability_box_inside_period_box_witness:
  "valid_query sample_args \<and>
   calculate_completeness (tl (tl sample_df)) sample_args = Inr None \<and>
   calculate_reliability (tl (tl sample_df)) sample_args = Inr None"
proof -
  have c: "calculate_completeness (tl (tl sample_df)) sample_args = Inr None"
    by (simp add: calculate_completeness_valid valid_sample sample_tail_lengths)
  from reliability_box_inside_period_box [OF valid_sample, of "tl (tl sample_df)"] c
  show ?thesis by (simp add: valid_sample)
qed

subsection \<open>Limits are not validated\<close>

text \<open>
  C10, as the specification states it: a window whose open interval is empty leaves an
  empty frame and so the result \<open>None\<close>, in both estimators. For completeness this fails
  on an auxiliary axis: with the power window (0, 0) no row is left in \<open>param_df\<close>, but
  the period window still holds 4 rows and the result is the ratio 0.
\<close>

theorem empty_ls_window_completeness:
  "valid_query narrow_args \<and>
   empty_window (ls_lower_limit narrow_args) (ls_upper_limit narrow_args) \<and>
   param_df sample_df narrow_args = [] \<and>
   calculate_completeness sample_df narrow_args = Inr (Some (Fin 0))"
  by (simp add: calculate_completeness_valid valid_narrow narrow_lengths status_rows_Nil)
     (simp add: narrow_args_def empty_window_def float_eval)

text \<open>
  C10, amended. No assertion reads a limit: whether an estimator fails, and with which
  error, is the same for any two argument sets that differ in their limits only, so zero,
  negative, infinite and NaN limits are accepted. On a valid query an empty period window
  leaves no row and both estimators return \<open>None\<close>; an empty window on a supplied
  auxiliary axis leaves no row in \<open>param_df\<close>, so reliability is \<open>None\<close>, and completeness
  is \<open>None\<close> when the period window holds fewer than 3 rows and 0 otherwise.
\<close>

theorem limits_unchecked:
  "(same_but_limits a a' \<longrightarrow>
      (calculate_reliability df a' = Inl e) = (calculate_reliability df a = Inl e) \<and>
      (calculate_completeness df a' = Inl e) = (calculate_completeness df a = Inl e)) \<and>
   (valid_query a \<and> empty_window (period_lower_limit a) (period_upper_limit a) \<longrightarrow>
      all_df df a = [] \<and>
      calculate_reliability df a = Inr None \<and> calculate_completeness df a = Inr None) \<and>
   (valid_query a \<and> aux_window_empty a \<longrightarrow>
      param_df df a = [] \<and>
      calculate_reliability df a = Inr None \<and>
      calculate_completeness df a =
        Inr (if length (all_df df a) < 3 then None else Some (Fin 0)))"
proof -
  have 1: "(calculate_reliability df a' = Inl e) = (calculate_reliability df a = Inl e)"
    "(calculate_completeness df a' = Inl e) = (calculate_completeness df a = Inl e)"
    if "same_but_limits a a'"
    using same_but_limits_conditions [OF that]
    by (simp_all add: reliability_failure completeness_failure)
  have 2: "all_df df a = [] \<and>
      calculate_reliability df a = Inr None \<and> calculate_completeness df a = Inr None"
    if "valid_query a" "empty_window (period_lower_limit a) (period_upper_limit a)"
    using empty_period_window [OF that(2), of df]
    by (simp add: calculate_reliability_valid calculate_completeness_valid that(1)
        param_df_of_empty)
  have 3: "param_df df a = [] \<and>
      calculate_reliability df a = Inr None \<and>
      calculate_completeness df a =
        Inr (if length (all_df df a) < 3 then None else Some (Fin 0))"
    if "valid_query a" "aux_window_empty a"
    using empty_aux_window [OF that(2), of df]
    by (simp add: calculate_reliability_valid calculate_completeness_valid that(1)
        status_rows_Nil)
  from 1 2 3 show ?thesis by blast
qed

theorem limits_unchecked_witness:
  "same_but_limits (sample_args\<lparr>ls := Some (Fin 2)\<rparr>)
     (sample_args\<lparr>ls := Some (Fin 2), period_lower_limit := Fin (- 3), ls_upper_limit := NaN,
        snr_lower_limit := NegInf\<rparr>) \<and>
   calculate_reliability sample_df
     (sample_args\<lparr>ls := Some (Fin 2), period_lower_limit := Fin (- 3), ls_upper_limit := NaN,
        snr_lower_limit := NegInf\<rparr>) =
     Inl (AssertionError ''Lomb-Scargle power must be between 0 and 1'') \<and>
   valid_query (sample_args\<lparr>period_lower_limit := Fin (- 1)\<rparr>) \<and>
   empty_window (period_lower_limit (sample_args\<lparr>period_lower_limit := Fin (- 1)\<rparr>))
     (period_upper_limit (sample_args\<lparr>period_lower_limit := Fin (- 1)\<rparr>)) \<and>
   calculate_reliability sample_df (sample_args\<lparr>period_lower_limit := Fin (- 1)\<rparr>) = Inr None \<and>
   calculate_completeness sample_df (sample_args\<lparr>period_lower_limit := Fin (- 1)\<rparr>) =
     Inr None \<and>
   valid_query narrow_args \<and> aux_window_empty narrow_args \<and>
   calculate_reliability sample_df narrow_args = Inr None"
proof -
  let ?b = "sample_args\<lparr>ls := Some (Fin 2)\<rparr>"
  let ?b' = "sample_args\<lparr>ls := Some (Fin 2), period_lower_limit := Fin (- 3),
    ls_upper_limit := NaN, snr_lower_limit := NegInf\<rparr>"
  let ?p = "sample_args\<lparr>period_lower_limit := Fin (- 1)\<rparr>"
  have s: "same_but_limits ?b ?b'"
    by (simp add: same_but_limits_def)
  have b: "calculate_reliability sample_df ?b =
      Inl (AssertionError ''Lomb-Scargle power must be between 0 and 1'')"
    by (simp add: reliability_failure)
       (simp add: sample_args_def default_args_def float_eval period_ok_def aux_given_def mode_ok_def
        ls_ok_def)
  have vp: "valid_query ?p"
    by (simp add: valid_query_def sample_args_def default_args_def float_eval period_ok_def aux_given_def
        mode_ok_def ls_ok_def snr_ok_def)
  have ep: "empty_window (period_lower_limit ?p) (period_upper_limit ?p)"
    by (simp add: empty_window_def float_eval sample_args_def default_args_def)
  have en: "aux_window_empty narrow_args"
    by (simp add: aux_window_empty_def empty_window_def float_eval narrow_args_def
        sample_args_def default_args_def)
  from limits_unchecked [of ?b ?b' sample_df
      "AssertionError ''Lomb-Scargle power must be between 0 and 1''"] s b
  have 1: "calculate_reliability sample_df ?b' =
      Inl (AssertionError ''Lomb-Scargle power must be between 0 and 1'')"
    by blast
  from limits_unchecked [of ?p ?p sample_df] vp ep
  have 2: "calculate_reliability sample_df ?p = Inr None \<and>
      calculate_completeness sample_df ?p = Inr None"
    by blast
  from limits_unchecked [of narrow_args narrow_args sample_df] valid_narrow en
  have 3: "calculate_reliability sample_df narrow_args = Inr None"
    by blast
  from s 1 vp ep 2 valid_narrow en 3 show ?thesis by blast
qed

end
